theory Spec2Isabelle
  imports Complex_Main "HOL-Library.AList"
begin

section \<open>Text, numbers and time\<close>

text \<open>
  The two import scripts (\<^verbatim>\<open>enhanced_seed.py\<close> and \<^verbatim>\<open>seed_import.py\<close>) drive a
  PostgreSQL/PostGIS store through SQL text.  The embedding below follows the Python
  control flow and gives each SQL statement the meaning PostgreSQL gives it.  Strings
  are byte strings, timestamps are ticks of the database clock, and values of the SQL
  type NUMERIC are rationals (the special value NaN is not represented).
\<close>

type_synonym timestamp = nat

definition digit_char :: "nat \<Rightarrow> char" where
  "digit_char d = ''0123456789'' ! d"

text \<open>The cast \<^verbatim>\<open>::text\<close> of a row number: its decimal digits.\<close>

function show_nat :: "nat \<Rightarrow> string" where
  "show_nat n = (if n < 10 then [digit_char n] else show_nat (n div 10) @ [digit_char (n mod 10)])"
  by pat_completeness auto
termination
  by (relation "measure id") auto

declare show_nat.simps [simp del]

definition show_int :: "int \<Rightarrow> string" where
  "show_int i = (if i < 0 then CHR ''-'' # show_nat (nat (- i)) else show_nat (nat i))"

text \<open>
  \<^verbatim>\<open>LPAD(s, n, c)\<close>: pads on the left up to length \<open>n\<close>; a string that is already
  longer is cut to its first \<open>n\<close> characters.
\<close>

definition lpad :: "string \<Rightarrow> nat \<Rightarrow> char \<Rightarrow> string" where
  "lpad s n c = (if n \<le> length s then take n s else replicate (n - length s) c @ s)"

text \<open>Python's \<^verbatim>\<open>str.lower\<close> on ASCII letters.\<close>

definition lower_char :: "char \<Rightarrow> char" where
  "lower_char c =
     (case map_of (zip ''ABCDEFGHIJKLMNOPQRSTUVWXYZ'' ''abcdefghijklmnopqrstuvwxyz'') c of
        Some d \<Rightarrow> d
      | None \<Rightarrow> c)"

definition lower :: "string \<Rightarrow> string" where
  "lower s = map lower_char s"

definition is_space :: "char \<Rightarrow> bool" where
  "is_space c \<longleftrightarrow> c \<in> set [CHR '' '', CHR 0x09, CHR 0x0A, CHR 0x0B, CHR 0x0C, CHR 0x0D]"

text \<open>Python's \<^verbatim>\<open>str.strip\<close>.\<close>

definition strip :: "string \<Rightarrow> string" where
  "strip s = rev (dropWhile is_space (rev (dropWhile is_space s)))"

text \<open>\<^verbatim>\<open>ROUND(x, 4)\<close> on NUMERIC rounds half away from zero.\<close>

definition round_half_away :: "rat \<Rightarrow> int" where
  "round_half_away x = (if 0 \<le> x then \<lfloor>x + 1 / 2\<rfloor> else - \<lfloor>- x + 1 / 2\<rfloor>)"

definition round4 :: "rat \<Rightarrow> rat" where
  "round4 x = of_int (round_half_away (x * 10000)) / 10000"

text \<open>\<^verbatim>\<open>COALESCE(v1, ..., vn, d)\<close> with a last argument that is never NULL.\<close>

fun coalesce :: "'a option list \<Rightarrow> 'a \<Rightarrow> 'a" where
  "coalesce [] d = d"
| "coalesce (None # vs) d = coalesce vs d"
| "coalesce (Some v # vs) d = v"

definition nullif :: "string option \<Rightarrow> string \<Rightarrow> string option" where
  "nullif v s = (if v = Some s then None else v)"

text \<open>
  Functions of the platform that the scripts call and do not define: the input
  conversion of NUMERIC (\<open>None\<close> when the text is not a number, which makes the
  statement fail) and the SHA-256 digest in hexadecimal.
\<close>

record externals =
  numeric_in :: "string \<Rightarrow> rat option"
  sha256_hex :: "string \<Rightarrow> string"

datatype sql_error =
    InvalidTextRepresentation
  | NumericValueOutOfRange
  | CheckViolation
  | NotNullViolation
  | UniqueViolation
  | CardinalityViolation
  | UndefinedColumn
  | SyntaxError
  | GeometryTypeMismatch

section \<open>Data model\<close>

text \<open>
  A geometry is known to the scripts only through what PostGIS and shapely report about
  it: its coordinates (kept as text), \<^verbatim>\<open>ST_IsValid\<close>, the planar \<^verbatim>\<open>ST_Area\<close>, the
  spheroidal area \<^verbatim>\<open>ST_Area(geography(.))\<close> in square metres, and its bounding box.
\<close>

record geom =
  g_wkt :: string
  g_valid :: bool
  g_area :: rat
  g_geog_area :: rat
  g_xmin :: rat
  g_ymin :: rat
  g_xmax :: rat
  g_ymax :: rat

text \<open>
  Staged attribute values: a JSON scalar is represented by the text that \<^verbatim>\<open>->>\<close>
  (or \<^verbatim>\<open>::text\<close>) yields for it, JSON null and SQL NULL by \<open>None\<close>.
\<close>

type_synonym props = "(string \<times> string option) list"

datatype jval = JNull | JText string | JInt int | JTime timestamp

type_synonym jsonb = "(string \<times> jval) list"

definition json_get :: "props \<Rightarrow> string \<Rightarrow> string option" where
  "json_get attrs k = (case map_of attrs k of Some (Some s) \<Rightarrow> Some s | _ \<Rightarrow> None)"

definition jsonb_of_props :: "props \<Rightarrow> jsonb" where
  "jsonb_of_props attrs = map (\<lambda>(k, v). (k, case v of None \<Rightarrow> JNull | Some s \<Rightarrow> JText s)) attrs"

text \<open>The operator \<^verbatim>\<open>||\<close> on JSONB objects: keys of the right operand win.\<close>

definition jsonb_concat :: "jsonb \<Rightarrow> jsonb \<Rightarrow> jsonb" where
  "jsonb_concat a b = fold (\<lambda>(k, v). AList.update k v) b a"

text \<open>
  The staging table has one of two shapes.  The fallback reader creates
  \<^verbatim>\<open>(id SERIAL, geometry, attributes JSONB, original_fid, import_timestamp)\<close>; the
  converter bridge creates \<^verbatim>\<open>ogc_fid\<close>, \<^verbatim>\<open>geometry\<close> and one column per source field.
  A staged row holds its key (\<^verbatim>\<open>id\<close>, respectively \<^verbatim>\<open>ogc_fid\<close>), its geometry, and
  its attribute values: the JSONB object of the first shape, the field columns of the
  second.  \<^verbatim>\<open>original_fid\<close> exists in the first shape only.
\<close>

record staged_row =
  sr_id :: int
  sr_geometry :: "geom option"
  sr_attributes :: props
  sr_original_fid :: "int option"

datatype staging =
    JsonTable "staged_row list"
  | ColumnTable "string list" "staged_row list"

definition staged_rows :: "staging \<Rightarrow> staged_row list" where
  "staged_rows st = (case st of JsonTable rows \<Rightarrow> rows | ColumnTable columns rows \<Rightarrow> rows)"

record land_plot =
  lp_plot_code :: string
  lp_status :: string
  lp_area_hectares :: rat
  lp_district :: string
  lp_ward :: string
  lp_village :: string
  lp_dataset_name :: "string option"
  lp_geometry :: geom
  lp_attributes :: jsonb
  lp_created_at :: timestamp
  lp_updated_at :: timestamp

record import_record =
  ir_dataset_name :: string
  ir_prj :: "string option"
  ir_cpg :: "string option"
  ir_dbf_schema :: "(string \<times> string) list"
  ir_file_hashes :: "(string \<times> string) list"
  ir_feature_count :: nat
  ir_bbox :: "(rat \<times> rat \<times> rat \<times> rat) option"
  ir_imported_at :: timestamp

record database =
  land_plots :: "land_plot list"
  shapefile_imports :: "import_record list"
  temp_table :: "staging option"

datatype error =
    ValidationFailed "string list"
  | BothImportsFailed
  | TempTableMissing
  | NoDataInTempTable
  | Sql sql_error
  | StatsFormatting
  | MetadataToolMissing
  | MissingLibraries
  | SourceUnreadable
  | FeatureUnreadable
  | SampleNotAnObject
  | NoGeometryColumn
  | ShapefileNotFound
  | FileUnreadable

section \<open>The upsert of enhanced\_seed.py\<close>

text \<open>
  \<^verbatim>\<open>WHERE geometry IS NOT NULL AND ST_IsValid(geometry) AND ST_Area(geometry) > 0\<close>
\<close>

definition where_clause :: "geom option \<Rightarrow> geom option" where
  "where_clause go =
     (case go of
        None \<Rightarrow> None
      | Some g \<Rightarrow> if g_valid g \<and> 0 < g_area g then Some g else None)"

definition synthesized_code :: "string \<Rightarrow> nat \<Rightarrow> string" where
  "synthesized_code dataset_name rn = dataset_name @ ''_'' @ lpad (show_nat rn) 4 (CHR ''0'')"

text \<open>The keys probed with \<^verbatim>\<open>attributes->>'key'\<close> at lines 557-562, in their order.\<close>

definition plot_code_keys :: "string list" where
  "plot_code_keys = [''plot_code'', ''PLOT_CODE'', ''plotcode'', ''code'', ''PLOT_NO'', ''PLOTNUM'']"

definition json_plot_code :: "string \<Rightarrow> nat \<Rightarrow> props \<Rightarrow> string" where
  "json_plot_code dataset_name rn attrs =
     coalesce (map (json_get attrs) plot_code_keys) (synthesized_code dataset_name rn)"

text \<open>
  \<^verbatim>\<open>COALESCE(CAST(NULLIF(v1, '') AS NUMERIC), ..., d)\<close>: arguments are evaluated from
  the left until one is not NULL, so a cast fails only when it is reached.
\<close>

fun coalesce_numeric :: "externals \<Rightarrow> string option list \<Rightarrow> rat \<Rightarrow> sql_error + rat" where
  "coalesce_numeric X [] d = Inr d"
| "coalesce_numeric X (v # vs) d =
     (case nullif v '''' of
        None \<Rightarrow> coalesce_numeric X vs d
      | Some s \<Rightarrow>
          (case numeric_in X s of
             None \<Rightarrow> Inl InvalidTextRepresentation
           | Some q \<Rightarrow> Inr q))"

text \<open>\<^verbatim>\<open>ROUND(CAST(ST_Area(geography(geometry)) / 10000 AS NUMERIC), 4)\<close>\<close>

definition geodesic_hectares :: "geom \<Rightarrow> rat" where
  "geodesic_hectares g = round4 (g_geog_area g / 10000)"

text \<open>The keys probed at lines 567-571, in their order.\<close>

definition area_keys :: "string list" where
  "area_keys = [''area_ha'', ''AREA_HA'', ''area'', ''AREA'', ''hectares'']"

definition json_area :: "externals \<Rightarrow> props \<Rightarrow> geom \<Rightarrow> sql_error + rat" where
  "json_area X attrs g =
     coalesce_numeric X (map (json_get attrs) area_keys) (geodesic_hectares g)"

text \<open>
  The table \<^verbatim>\<open>land_plots\<close> as \<^verbatim>\<open>ensure_database_schema\<close> declares it: the column
  \<^verbatim>\<open>area_hectares numeric(12,4)\<close> rounds an assigned value to four decimals and
  refuses a value of \<open>10\<^sup>8\<close> or more; \<^verbatim>\<open>CHECK (area_hectares > 0)\<close> is tested on every
  row handed to the INSERT, before the conflict is looked for; \<^verbatim>\<open>plot_code\<close> is UNIQUE.
\<close>

definition numeric_12_4 :: "rat \<Rightarrow> sql_error + rat" where
  "numeric_12_4 v =
     (let r = round4 v in
      if 100000000 \<le> \<bar>r\<bar> then Inl NumericValueOutOfRange else Inr r)"

definition new_row ::
  "timestamp \<Rightarrow> string \<Rightarrow> string \<Rightarrow> string \<Rightarrow> string \<Rightarrow> string \<Rightarrow> rat \<Rightarrow> geom \<Rightarrow> jsonb \<Rightarrow> land_plot" where
  "new_row now dataset_name district ward village code area g attrs =
     \<lparr> lp_plot_code = code, lp_status = ''available'', lp_area_hectares = area,
       lp_district = district, lp_ward = ward, lp_village = village,
       lp_dataset_name = Some dataset_name, lp_geometry = g, lp_attributes = attrs,
       lp_created_at = now, lp_updated_at = now \<rparr>"

text \<open>One output row of the SELECT over the JSONB shape (lines 555-585).\<close>

definition json_select ::
  "externals \<Rightarrow> timestamp \<Rightarrow> string \<Rightarrow> string \<Rightarrow> string \<Rightarrow> string \<Rightarrow>
     nat \<times> geom \<times> staged_row \<Rightarrow> sql_error + land_plot" where
  "json_select X now dataset_name district ward village c =
     (case c of (rn, g, r) \<Rightarrow>
        (case json_area X (sr_attributes r) g of
           Inl e \<Rightarrow> Inl e
         | Inr a \<Rightarrow>
             (case numeric_12_4 a of
                Inl e \<Rightarrow> Inl e
              | Inr area \<Rightarrow>
                  Inr (new_row now dataset_name district ward village
                         (json_plot_code dataset_name rn (sr_attributes r)) area g
                         (jsonb_concat (jsonb_of_props (sr_attributes r))
                            [(''import_method'', JText ''python_fallback''),
                             (''import_timestamp'', JTime now),
                             (''original_fid'',
                                case sr_original_fid r of None \<Rightarrow> JNull | Some i \<Rightarrow> JInt i)])))))"

text \<open>
  The rows that pass the WHERE clause, in the order of the window (\<^verbatim>\<open>ORDER BY id\<close>,
  respectively \<^verbatim>\<open>ORDER BY ogc_fid\<close>).
\<close>

definition candidates :: "staged_row list \<Rightarrow> (geom \<times> staged_row) list" where
  "candidates rows =
     List.map_filter (\<lambda>r. map_option (\<lambda>g. (g, r)) (where_clause (sr_geometry r)))
       (sort_key sr_id rows)"

text \<open>\<^verbatim>\<open>ROW_NUMBER() OVER (...)\<close> numbers the rows that passed the WHERE clause from 1.\<close>

definition row_number :: "'a list \<Rightarrow> (nat \<times> 'a) list" where
  "row_number xs = enumerate 1 xs"

fun sequence_rows :: "(sql_error + 'a) list \<Rightarrow> sql_error + 'a list" where
  "sequence_rows [] = Inr []"
| "sequence_rows (x # xs) =
     (case x of
        Inl e \<Rightarrow> Inl e
      | Inr v \<Rightarrow> (case sequence_rows xs of Inl e \<Rightarrow> Inl e | Inr vs \<Rightarrow> Inr (v # vs)))"

text \<open>The bridge shape (lines 595-664).\<close>

definition system_columns :: "string list" where
  "system_columns = [''id'', ''geometry'', ''ogc_fid'', ''wkb_geometry'', ''import_timestamp'']"

definition attr_columns :: "string list \<Rightarrow> string list" where
  "attr_columns columns = filter (\<lambda>c. c \<notin> set system_columns) columns"

text \<open>The column names, in lower case, that lines 614 and 627 look for.\<close>

definition plot_code_names :: "string list" where
  "plot_code_names = [''plot_code'', ''plotcode'', ''code'', ''plot_no'', ''plotnum'', ''plot_id'']"

definition area_names :: "string list" where
  "area_names = [''area_ha'', ''area'', ''hectares'', ''area_hect'', ''area_m2'']"

definition plot_code_col :: "string list \<Rightarrow> string option" where
  "plot_code_col cols = find (\<lambda>c. lower c \<in> set plot_code_names) cols"

definition area_col :: "string list \<Rightarrow> string option" where
  "area_col cols = find (\<lambda>c. lower c \<in> set area_names) cols"

definition column_plot_code :: "string \<Rightarrow> string list \<Rightarrow> nat \<Rightarrow> props \<Rightarrow> string" where
  "column_plot_code dataset_name cols rn vals =
     (case plot_code_col cols of
        Some c \<Rightarrow> coalesce [nullif (json_get vals c) ''''] (synthesized_code dataset_name rn)
      | None \<Rightarrow> synthesized_code dataset_name rn)"

definition column_area :: "externals \<Rightarrow> string list \<Rightarrow> props \<Rightarrow> geom \<Rightarrow> sql_error + rat" where
  "column_area X cols vals g =
     (case area_col cols of
        Some c \<Rightarrow> coalesce_numeric X [json_get vals c] (geodesic_hectares g)
      | None \<Rightarrow> Inr (geodesic_hectares g))"

text \<open>
  \<^verbatim>\<open>jsonb_strip_nulls(jsonb_build_object('c', COALESCE(c::text, ''), ...))\<close>: a NULL
  column becomes the empty string, so nothing is stripped.
\<close>

definition json_build :: "string list \<Rightarrow> props \<Rightarrow> jsonb" where
  "json_build cols vals = map (\<lambda>c. (c, JText (coalesce [json_get vals c] ''''))) cols"

definition column_select ::
  "externals \<Rightarrow> timestamp \<Rightarrow> string \<Rightarrow> string \<Rightarrow> string \<Rightarrow> string \<Rightarrow> string list \<Rightarrow>
     nat \<times> geom \<times> staged_row \<Rightarrow> sql_error + land_plot" where
  "column_select X now dataset_name district ward village cols c =
     (case c of (rn, g, r) \<Rightarrow>
        (case column_area X cols (sr_attributes r) g of
           Inl e \<Rightarrow> Inl e
         | Inr a \<Rightarrow>
             (case numeric_12_4 a of
                Inl e \<Rightarrow> Inl e
              | Inr area \<Rightarrow>
                  Inr (new_row now dataset_name district ward village
                         (column_plot_code dataset_name cols rn (sr_attributes r)) area g
                         (jsonb_concat (json_build cols (sr_attributes r))
                            [(''import_method'', JText ''ogr2ogr''),
                             (''import_timestamp'', JTime now)])))))"

text \<open>
  The rows the INSERT proposes, or the error of the first row whose expressions fail.
  A table of the bridge shape that happens to have a column named \<^verbatim>\<open>attributes\<close> is
  sent down the JSONB branch, whose statement names columns the table does not have.
\<close>

definition has_attributes_col :: "staging \<Rightarrow> bool" where
  "has_attributes_col st =
     (case st of JsonTable rows \<Rightarrow> True | ColumnTable columns rows \<Rightarrow> ''attributes'' \<in> set columns)"

definition proposed_rows ::
  "externals \<Rightarrow> timestamp \<Rightarrow> string \<Rightarrow> string \<Rightarrow> string \<Rightarrow> string \<Rightarrow> staging \<Rightarrow>
     sql_error + land_plot list" where
  "proposed_rows X now dataset_name district ward village st =
     (case st of
        JsonTable rows \<Rightarrow>
          sequence_rows (map (json_select X now dataset_name district ward village)
                           (row_number (candidates rows)))
      | ColumnTable columns rows \<Rightarrow>
          if has_attributes_col st \<or> ''geometry'' \<notin> set columns then Inl UndefinedColumn
          else sequence_rows (map (column_select X now dataset_name district ward village
                                     (attr_columns columns))
                                (row_number (candidates rows))))"

text \<open>
  \<^verbatim>\<open>INSERT ... ON CONFLICT (plot_code) DO UPDATE SET updated_at = NOW(),
  attributes = EXCLUDED.attributes\<close>.  Each proposed row either is appended or updates the
  row that holds its plot code.  PostgreSQL refuses a statement that would touch one row
  twice (two proposed rows with the same plot code): it fails with a cardinality
  violation.  \<open>touched\<close> lists the plot codes the statement has already written.
\<close>

definition do_update :: "timestamp \<Rightarrow> land_plot \<Rightarrow> land_plot \<Rightarrow> land_plot" where
  "do_update now excluded r =
     (if lp_plot_code r = lp_plot_code excluded
      then r\<lparr>lp_updated_at := now, lp_attributes := lp_attributes excluded\<rparr>
      else r)"

fun on_conflict_update ::
  "timestamp \<Rightarrow> land_plot list \<Rightarrow> string list \<Rightarrow> land_plot list \<Rightarrow> sql_error + land_plot list" where
  "on_conflict_update now [] touched tbl = Inr tbl"
| "on_conflict_update now (p # ps) touched tbl =
     (if \<not> 0 < lp_area_hectares p then Inl CheckViolation
      else if lp_plot_code p \<in> set touched then Inl CardinalityViolation
      else if lp_plot_code p \<in> set (map lp_plot_code tbl)
      then on_conflict_update now ps (lp_plot_code p # touched) (map (do_update now p) tbl)
      else on_conflict_update now ps (lp_plot_code p # touched) (tbl @ [p]))"

definition insert_sql ::
  "externals \<Rightarrow> timestamp \<Rightarrow> string \<Rightarrow> string \<Rightarrow> string \<Rightarrow> string \<Rightarrow> staging \<Rightarrow>
     land_plot list \<Rightarrow> sql_error + land_plot list" where
  "insert_sql X now dataset_name district ward village st tbl =
     (case proposed_rows X now dataset_name district ward village st of
        Inl e \<Rightarrow> Inl e
      | Inr ps \<Rightarrow> on_conflict_update now ps [] tbl)"

definition staged_count :: "staging \<Rightarrow> nat" where
  "staged_count st = length (staged_rows st)"

definition dataset_count :: "string \<Rightarrow> land_plot list \<Rightarrow> nat" where
  "dataset_count dataset_name tbl = length (filter (\<lambda>r. lp_dataset_name r = Some dataset_name) tbl)"

text \<open>
  \<^verbatim>\<open>process_imported_data\<close>.  An exception before the commit rolls the statement back and
  is raised again.  After the commit the statistics are formatted for the log; with no row
  of this dataset the aggregates are NULL and formatting them raises, after the rows have
  been committed and before the staging table is dropped.
\<close>

definition process_imported_data ::
  "externals \<Rightarrow> timestamp \<Rightarrow> string \<Rightarrow> string \<Rightarrow> string \<Rightarrow> string \<Rightarrow> database \<Rightarrow>
     (error + nat) \<times> database" where
  "process_imported_data X now dataset_name district ward village db =
     (case temp_table db of
        None \<Rightarrow> (Inl TempTableMissing, db)
      | Some st \<Rightarrow>
          if staged_count st = 0 then (Inl NoDataInTempTable, db)
          else
            (case insert_sql X now dataset_name district ward village st (land_plots db) of
               Inl e \<Rightarrow> (Inl (Sql e), db)
             | Inr tbl \<Rightarrow>
                 (let inserted_count = dataset_count dataset_name tbl in
                  if inserted_count = 0 then (Inl StatsFormatting, db\<lparr>land_plots := tbl\<rparr>)
                  else (Inr inserted_count, db\<lparr>land_plots := tbl, temp_table := None\<rparr>))))"

section \<open>Component validation\<close>

text \<open>
  The five sidecar files share one base path and are addressed by their extension.  A
  file is missing, present but not readable (its size is still known), or readable with
  its content.
\<close>

datatype file_state = Missing | Unreadable nat | Readable string

type_synonym files = "string \<Rightarrow> file_state"

definition file_exists :: "file_state \<Rightarrow> bool" where
  "file_exists f = (f \<noteq> Missing)"

definition file_size :: "file_state \<Rightarrow> nat" where
  "file_size f = (case f of Missing \<Rightarrow> 0 | Unreadable n \<Rightarrow> n | Readable s \<Rightarrow> length s)"

record component =
  c_exists :: bool
  c_size :: nat
  c_readable :: bool

record validation_result =
  vr_valid :: bool
  vr_components :: "(string \<times> component) list"
  vr_missing_required :: "string list"
  vr_file_sizes :: "(string \<times> nat) list"
  vr_total_size :: nat
  vr_encoding :: "string option"
  vr_projection :: "string option"

definition components :: "string list" where
  "components = [''shp'', ''shx'', ''dbf'', ''prj'', ''cpg'']"

definition required :: "string list" where
  "required = [''shp'', ''shx'', ''dbf'']"

text \<open>The body of the loop at lines 111-135, for one component.\<close>

definition check_component :: "files \<Rightarrow> string \<Rightarrow> validation_result \<Rightarrow> validation_result" where
  "check_component fs c vr =
     (let ex = file_exists (fs c);
          size = (if ex then file_size (fs c) else 0);
          vr1 = vr\<lparr>vr_components :=
                    AList.update c \<lparr>c_exists = ex, c_size = size, c_readable = False\<rparr>
                      (vr_components vr)\<rparr>;
          vr2 = (case fs c of
                   Missing \<Rightarrow> vr1
                 | Readable content \<Rightarrow>
                     vr1\<lparr>vr_components :=
                           AList.update c \<lparr>c_exists = ex, c_size = size, c_readable = True\<rparr>
                             (vr_components vr1),
                         vr_file_sizes := AList.update c size (vr_file_sizes vr1),
                         vr_total_size := vr_total_size vr1 + size\<rparr>
                 | Unreadable n \<Rightarrow> vr1\<lparr>vr_valid := False\<rparr>)
      in if c \<in> set required \<and> \<not> ex
         then vr2\<lparr>vr_missing_required := vr_missing_required vr2 @ [c], vr_valid := False\<rparr>
         else vr2)"

text \<open>Reading a sidecar as text; a failure is logged and leaves the hint unset.\<close>

definition read_text :: "file_state \<Rightarrow> string option" where
  "read_text f = (case f of Readable content \<Rightarrow> Some (strip content) | _ \<Rightarrow> None)"

definition validate_shapefile_components :: "files \<Rightarrow> validation_result" where
  "validate_shapefile_components fs =
     (let vr = fold (check_component fs) components
                 \<lparr>vr_valid = True, vr_components = [], vr_missing_required = [],
                  vr_file_sizes = [], vr_total_size = 0, vr_encoding = None,
                  vr_projection = None\<rparr>
      in vr\<lparr>vr_encoding := read_text (fs ''cpg''), vr_projection := read_text (fs ''prj'')\<rparr>)"

section \<open>The two readers\<close>

text \<open>
  What the external tools do is an input of the run.  \<^verbatim>\<open>ogr2ogr --version\<close> yields a
  version or fails (tool absent, non-zero exit, timeout).  \<^verbatim>\<open>ogrinfo\<close> yields the
  metadata that lines 217-258 parse out of its output, fails, or is absent (an exception
  that \<^verbatim>\<open>get_shapefile_metadata\<close> does not catch).  The converter cannot be started,
  runs into the 300 second timeout and is killed, or exits with a return code; the
  staging table it leaves behind comes with the outcome.
\<close>

record metadata =
  md_feature_count :: nat
  md_fields :: "(string \<times> string) list"
  md_spatial_extent :: "(rat \<times> rat \<times> rat \<times> rat) option"

definition empty_metadata :: metadata where
  "empty_metadata = \<lparr>md_feature_count = 0, md_fields = [], md_spatial_extent = None\<rparr>"

datatype ogrinfo_run = OgrinfoMissing | OgrinfoFailed | OgrinfoOk metadata

datatype ogr2ogr_run =
    SpawnFailed
  | TimedOut "staging option"
  | Exited int "staging option"

definition import_with_ogr2ogr :: "ogr2ogr_run \<Rightarrow> database \<Rightarrow> bool \<times> database" where
  "import_with_ogr2ogr run db =
     (let db0 = db\<lparr>temp_table := None\<rparr> in
      case run of
        SpawnFailed \<Rightarrow> (False, db0)
      | TimedOut t \<Rightarrow> (False, db0\<lparr>temp_table := t\<rparr>)
      | Exited returncode t \<Rightarrow>
          if returncode = 0 then
            (case t of
               None \<Rightarrow> (False, db0)
             | Some st \<Rightarrow> (staged_count st \<noteq> 0, db0\<lparr>temp_table := t\<rparr>))
          else (False, db0\<lparr>temp_table := t\<rparr>))"

text \<open>
  A source feature as the fallback reader sees it: \<^verbatim>\<open>shape(feature['geometry'])\<close>
  followed by the coordinate transform either raises (\<open>None\<close>) or yields a geometry with
  its type, together with what \<^verbatim>\<open>buffer(0)\<close> would make of it.
\<close>

datatype geom_type = Polygon | MultiPolygon | OtherGeometry string

record shapely =
  sh_type :: geom_type
  sh_geom :: geom
  sh_fixed_type :: geom_type
  sh_fixed :: geom

record feature =
  f_geometry :: "shapely option"
  f_properties :: "props option"

record batch_item =
  bi_type :: geom_type
  bi_geom :: geom
  bi_attrs :: props
  bi_fid :: nat

definition TANZANIA_north :: rat where "TANZANIA_north = - (95 / 100)"
definition TANZANIA_south :: rat where "TANZANIA_south = - (1175 / 100)"
definition TANZANIA_east :: rat where "TANZANIA_east = 4044 / 100"
definition TANZANIA_west :: rat where "TANZANIA_west = 2934 / 100"

definition within_tanzania :: "rat \<times> rat \<times> rat \<times> rat \<Rightarrow> bool" where
  "within_tanzania b =
     (case b of (xmin, ymin, xmax, ymax) \<Rightarrow>
        TANZANIA_west \<le> xmin \<and> xmin \<le> TANZANIA_east \<and>
        TANZANIA_west \<le> xmax \<and> xmax \<le> TANZANIA_east \<and>
        TANZANIA_south \<le> ymin \<and> ymin \<le> TANZANIA_north \<and>
        TANZANIA_south \<le> ymax \<and> ymax \<le> TANZANIA_north)"

definition bounds :: "geom \<Rightarrow> rat \<times> rat \<times> rat \<times> rat" where
  "bounds g = (g_xmin g, g_ymin g, g_xmax g, g_ymax g)"

text \<open>
  Lines 423-460 for feature \<open>i\<close>: the item to stage, or \<open>None\<close> when the feature is
  skipped and counted as an error.
\<close>

definition prepare_feature :: "nat \<Rightarrow> feature \<Rightarrow> batch_item option" where
  "prepare_feature i f =
     (case f_geometry f of
        None \<Rightarrow> None
      | Some s \<Rightarrow>
          if sh_type s \<noteq> Polygon \<and> sh_type s \<noteq> MultiPolygon then None
          else if g_valid (sh_geom s)
          then Some \<lparr>bi_type = MultiPolygon, bi_geom = sh_geom s,
                     bi_attrs = (case f_properties f of None \<Rightarrow> [] | Some a \<Rightarrow> a), bi_fid = i\<rparr>
          else if g_valid (sh_fixed s)
          then Some \<lparr>bi_type = sh_fixed_type s, bi_geom = sh_fixed s,
                     bi_attrs = (case f_properties f of None \<Rightarrow> [] | Some a \<Rightarrow> a), bi_fid = i\<rparr>
          else None)"

text \<open>
  \<^verbatim>\<open>_execute_batch_insert\<close>: one INSERT for the whole batch.  The cast to
  \<^verbatim>\<open>geometry(MultiPolygon,4326)\<close> fails the statement when an item is of another type.
  \<^verbatim>\<open>id\<close> is the next value of the sequence.
\<close>

definition staged_of_item :: "nat \<Rightarrow> batch_item \<Rightarrow> staged_row" where
  "staged_of_item n b =
     \<lparr>sr_id = int n, sr_geometry = Some (bi_geom b), sr_attributes = bi_attrs b,
      sr_original_fid = Some (int (bi_fid b))\<rparr>"

definition execute_batch_insert :: "staged_row list \<Rightarrow> batch_item list \<Rightarrow> sql_error + staged_row list" where
  "execute_batch_insert rows batch =
     (if \<forall>b \<in> set batch. bi_type b = MultiPolygon
      then Inr (rows @ map (\<lambda>(n, b). staged_of_item n b) (enumerate (Suc (length rows)) batch))
      else Inl GeometryTypeMismatch)"

record loop_state =
  ls_batch :: "batch_item list"
  ls_rows :: "staged_row list"
  ls_imported_count :: nat
  ls_error_count :: nat
  ls_warnings :: "nat list"

definition batch_size :: nat where
  "batch_size = 100"

text \<open>
  One iteration of the loop at line 421.  A failing batch insert is caught by the handler
  of the iteration: the feature counts as an error and the batch stays as it is.
\<close>

definition loop_body :: "nat \<Rightarrow> feature \<Rightarrow> loop_state \<Rightarrow> loop_state" where
  "loop_body i f s =
     (case prepare_feature i f of
        None \<Rightarrow> s\<lparr>ls_error_count := ls_error_count s + 1\<rparr>
      | Some b \<Rightarrow>
          (let s1 = s\<lparr>ls_warnings := (if within_tanzania (bounds (bi_geom b)) then ls_warnings s
                                       else ls_warnings s @ [i]),
                      ls_batch := ls_batch s @ [b]\<rparr>
           in if batch_size \<le> length (ls_batch s1) then
                (case execute_batch_insert (ls_rows s1) (ls_batch s1) of
                   Inl e \<Rightarrow> s1\<lparr>ls_error_count := ls_error_count s1 + 1\<rparr>
                 | Inr rows \<Rightarrow>
                     s1\<lparr>ls_rows := rows,
                        ls_imported_count := ls_imported_count s1 + length (ls_batch s1),
                        ls_batch := []\<rparr>)
              else s1))"

fun fallback_loop :: "nat \<Rightarrow> feature list \<Rightarrow> loop_state \<Rightarrow> loop_state" where
  "fallback_loop i [] s = s"
| "fallback_loop i (f # fs) s = fallback_loop (Suc i) fs (loop_body i f s)"

definition initial_state :: loop_state where
  "initial_state =
     \<lparr>ls_batch = [], ls_rows = [], ls_imported_count = 0, ls_error_count = 0, ls_warnings = []\<rparr>"

text \<open>
  \<^verbatim>\<open>import_with_python_fallback\<close>.  \<open>libs\<close> tells whether fiona, shapely and pyproj can
  be imported; \<open>src\<close> is \<open>None\<close> when the shapefile cannot be opened.  The staging table is
  created and committed first; the rows are committed once, after the loop, and any
  exception outside the loop body rolls them back.
\<close>

definition import_with_python_fallback ::
  "bool \<Rightarrow> feature list option \<Rightarrow> database \<Rightarrow> bool \<times> database" where
  "import_with_python_fallback libs src db =
     (if \<not> libs then (False, db)
      else
        (let db0 = db\<lparr>temp_table := Some (JsonTable [])\<rparr> in
         case src of
           None \<Rightarrow> (False, db0)
         | Some fs \<Rightarrow>
             (let s = fallback_loop 0 fs initial_state in
              if ls_batch s = []
              then (0 < ls_imported_count s, db0\<lparr>temp_table := Some (JsonTable (ls_rows s))\<rparr>)
              else
                (case execute_batch_insert (ls_rows s) (ls_batch s) of
                   Inl e \<Rightarrow> (False, db0)
                 | Inr rows \<Rightarrow>
                     (0 < ls_imported_count s + length (ls_batch s),
                      db0\<lparr>temp_table := Some (JsonTable rows)\<rparr>)))))"

text \<open>
  The envelope test on the statistics of the committed rows (lines 709-716) chooses
  between two log lines and nothing else.
\<close>

definition extent :: "geom list \<Rightarrow> (rat \<times> rat \<times> rat \<times> rat) option" where
  "extent gs =
     (case gs of
        [] \<Rightarrow> None
      | g # hs \<Rightarrow>
          Some (fold (\<lambda>h. min (g_xmin h)) hs (g_xmin g), fold (\<lambda>h. min (g_ymin h)) hs (g_ymin g),
                fold (\<lambda>h. max (g_xmax h)) hs (g_xmax g), fold (\<lambda>h. max (g_ymax h)) hs (g_ymax g)))"

definition stats_within_bounds :: "string \<Rightarrow> land_plot list \<Rightarrow> bool option" where
  "stats_within_bounds dataset_name tbl =
     map_option within_tanzania
       (extent (map lp_geometry (filter (\<lambda>r. lp_dataset_name r = Some dataset_name) tbl)))"

section \<open>The import ledger and the whole run\<close>

text \<open>
  \<^verbatim>\<open>INSERT INTO shapefile_imports ... ON CONFLICT (dataset_name) DO UPDATE\<close>: the row of
  the dataset is replaced field by field and \<^verbatim>\<open>imported_at\<close> refreshed.
\<close>

definition upsert_import :: "timestamp \<Rightarrow> import_record \<Rightarrow> import_record list \<Rightarrow> import_record list" where
  "upsert_import now r tbl =
     (if ir_dataset_name r \<in> set (map ir_dataset_name tbl)
      then map (\<lambda>old. if ir_dataset_name old = ir_dataset_name r then r\<lparr>ir_imported_at := now\<rparr> else old) tbl
      else tbl @ [r\<lparr>ir_imported_at := now\<rparr>])"

text \<open>Hashing the sidecars that exist; opening an unreadable one raises.\<close>

fun file_hashes :: "externals \<Rightarrow> files \<Rightarrow> string list \<Rightarrow> (string \<times> string) list option" where
  "file_hashes X fs [] = Some []"
| "file_hashes X fs (ext # exts) =
     (case fs ext of
        Missing \<Rightarrow> file_hashes X fs exts
      | Unreadable n \<Rightarrow> None
      | Readable content \<Rightarrow>
          map_option (\<lambda>hs. (ext, sha256_hex X content) # hs) (file_hashes X fs exts))"

text \<open>
  \<^verbatim>\<open>create_import_record\<close>: every exception is caught and logged, so a failure leaves
  the ledger as it was.
\<close>

definition create_import_record ::
  "externals \<Rightarrow> timestamp \<Rightarrow> files \<Rightarrow> string \<Rightarrow> validation_result \<Rightarrow> metadata \<Rightarrow> nat \<Rightarrow>
     database \<Rightarrow> database" where
  "create_import_record X now fs dataset_name vr md feature_count db =
     (case file_hashes X fs [''shp'', ''shx'', ''dbf'', ''prj'', ''cpg''] of
        None \<Rightarrow> db
      | Some hashes \<Rightarrow>
          db\<lparr>shapefile_imports :=
               upsert_import now
                 \<lparr>ir_dataset_name = dataset_name, ir_prj = vr_projection vr, ir_cpg = vr_encoding vr,
                  ir_dbf_schema = fold (\<lambda>(k, v). AList.update k v) (md_fields md) [],
                  ir_file_hashes = hashes, ir_feature_count = feature_count,
                  ir_bbox = md_spatial_extent md,
                  ir_imported_at = now\<rparr>
                 (shapefile_imports db)\<rparr>)"

record environment =
  env_files :: files
  env_gdal_version :: "string option"
  env_ogrinfo :: ogrinfo_run
  env_ogr2ogr :: ogr2ogr_run
  env_python_libs :: bool
  env_features :: "feature list option"

text \<open>
  \<^verbatim>\<open>process_shapefile\<close>, steps 1 to 6.  The result pairs what the call returns or raises
  with the store it leaves behind.
\<close>

definition import_shapefile_data :: "environment \<Rightarrow> database \<Rightarrow> bool \<times> database" where
  "import_shapefile_data env db =
     (let (success, db1) =
            (if env_gdal_version env \<noteq> None then import_with_ogr2ogr (env_ogr2ogr env) db
             else (False, db))
      in if \<not> success
         then import_with_python_fallback (env_python_libs env) (env_features env) db1
         else (success, db1))"

definition process_shapefile ::
  "externals \<Rightarrow> timestamp \<Rightarrow> environment \<Rightarrow> string \<Rightarrow> string \<Rightarrow> string \<Rightarrow> string \<Rightarrow> database \<Rightarrow>
     (error + nat) \<times> database" where
  "process_shapefile X now env dataset_name district ward village db =
     (let validation_result = validate_shapefile_components (env_files env) in
      if \<not> vr_valid validation_result
      then (Inl (ValidationFailed (vr_missing_required validation_result)), db)
      else if env_gdal_version env \<noteq> None \<and> env_ogrinfo env = OgrinfoMissing
      then (Inl MetadataToolMissing, db)
      else
        (let md = (if env_gdal_version env \<noteq> None
                   then (case env_ogrinfo env of OgrinfoOk m \<Rightarrow> m | _ \<Rightarrow> empty_metadata)
                   else empty_metadata);
             (success, db1) = import_shapefile_data env db
         in if \<not> success then (Inl BothImportsFailed, db1)
            else
              (case process_imported_data X now dataset_name district ward village db1 of
                 (Inl e, db2) \<Rightarrow> (Inl e, db2)
               | (Inr inserted_count, db2) \<Rightarrow>
                   (Inr inserted_count,
                    create_import_record X now (env_files env) dataset_name validation_result md
                      inserted_count db2))))"

section \<open>seed\_import.py\<close>

text \<open>
  The older script loads the staging table with \<^verbatim>\<open>subprocess.check_call\<close> when the
  converter is on the path, and otherwise with a reader that raises where the enhanced
  one skips.  The table \<^verbatim>\<open>land_plots\<close> is the one declared above (\<^verbatim>\<open>schema.sql\<close> is read
  from disk by the script).
\<close>

datatype check_call = NoCommand | CalledProcessError "staging option" | Completed "staging option"

definition seed_import_with_ogr2ogr :: "check_call \<Rightarrow> database \<Rightarrow> bool \<times> database" where
  "seed_import_with_ogr2ogr run db =
     (case run of
        NoCommand \<Rightarrow> (False, db)
      | CalledProcessError t \<Rightarrow> (False, db\<lparr>temp_table := t\<rparr>)
      | Completed t \<Rightarrow> (True, db\<lparr>temp_table := t\<rparr>))"

fun fallback_rows :: "nat \<Rightarrow> feature list \<Rightarrow> error + staged_row list" where
  "fallback_rows n [] = Inr []"
| "fallback_rows n (f # fs) =
     (case f_geometry f of
        None \<Rightarrow> Inl FeatureUnreadable
      | Some s \<Rightarrow>
          if sh_type s = Polygon \<or> sh_type s = MultiPolygon then
            (case fallback_rows (Suc n) fs of
               Inl e \<Rightarrow> Inl e
             | Inr rows \<Rightarrow>
                 Inr (\<lparr>sr_id = int n, sr_geometry = Some (sh_geom s),
                       sr_attributes = (case f_properties f of None \<Rightarrow> [] | Some a \<Rightarrow> a),
                       sr_original_fid = None\<rparr> # rows))
          else Inl (Sql GeometryTypeMismatch))"

definition fallback_python_import ::
  "bool \<Rightarrow> feature list option \<Rightarrow> database \<Rightarrow> (error + unit) \<times> database" where
  "fallback_python_import libs src db =
     (if \<not> libs then (Inl MissingLibraries, db)
      else
        (let db0 = db\<lparr>temp_table := Some (JsonTable [])\<rparr> in
         case src of
           None \<Rightarrow> (Inl SourceUnreadable, db0)
         | Some fs \<Rightarrow>
             (case fallback_rows 1 fs of
                Inl e \<Rightarrow> (Inl e, db0)
              | Inr rows \<Rightarrow> (Inr (), db0\<lparr>temp_table := Some (JsonTable rows)\<rparr>))))"

definition geom_col :: "string list \<Rightarrow> string option" where
  "geom_col col_names = find (\<lambda>candidate. candidate \<in> set col_names) [''geometry'', ''geom'', ''wkb_geometry'']"

definition attr_key_names :: "string list" where
  "attr_key_names = [''plot_code'', ''plotid'', ''code'', ''plot_no'', ''plotnum'']"

definition attr_key :: "string list \<Rightarrow> string option" where
  "attr_key attr_cols = find (\<lambda>k. lower k \<in> set attr_key_names) attr_cols"

definition mby_code :: "nat \<Rightarrow> string" where
  "mby_code rn = ''MBY-'' @ lpad (show_nat rn) 4 (CHR ''0'')"

definition plot_code_raw :: "string option \<Rightarrow> nat \<Rightarrow> props \<Rightarrow> string" where
  "plot_code_raw key rn vals =
     (case key of
        Some k \<Rightarrow> coalesce [json_get vals k] (mby_code rn)
      | None \<Rightarrow> mby_code rn)"

text \<open>\<^verbatim>\<open>jsonb_strip_nulls(jsonb_build_object('c', c, ...))\<close>\<close>

definition strip_nulls_build :: "string list \<Rightarrow> props \<Rightarrow> jsonb" where
  "strip_nulls_build cols vals =
     List.map_filter (\<lambda>c. map_option (\<lambda>v. (c, JText v)) (json_get vals c)) cols"

text \<open>
  One row of the INSERT's SELECT (lines 214-221).  The target columns \<^verbatim>\<open>geometry\<close> and
  \<^verbatim>\<open>area_hectares\<close> are NOT NULL, and both are NULL for a staged row without geometry.
\<close>

definition seed_select ::
  "timestamp \<Rightarrow> string \<Rightarrow> string \<Rightarrow> string \<Rightarrow> string \<Rightarrow> string list \<Rightarrow>
     string \<times> staged_row \<Rightarrow> sql_error + land_plot" where
  "seed_select now dataset_name district ward village cols c =
     (case c of (code, r) \<Rightarrow>
        (case sr_geometry r of
           None \<Rightarrow> Inl NotNullViolation
         | Some g \<Rightarrow>
             (case numeric_12_4 (geodesic_hectares g) of
                Inl e \<Rightarrow> Inl e
              | Inr area \<Rightarrow>
                  Inr (new_row now dataset_name district ward village code area g
                         (strip_nulls_build cols (sr_attributes r))))))"

text \<open>A plain INSERT of several rows: CHECK and UNIQUE are tested row by row.\<close>

fun plain_insert :: "land_plot list \<Rightarrow> land_plot list \<Rightarrow> sql_error + land_plot list" where
  "plain_insert [] tbl = Inr tbl"
| "plain_insert (p # ps) tbl =
     (if \<not> 0 < lp_area_hectares p then Inl CheckViolation
      else if lp_plot_code p \<in> set (map lp_plot_code tbl) then Inl UniqueViolation
      else plain_insert ps (tbl @ [p]))"

text \<open>
  The INSERT of lines 206-223 over the rows \<open>src\<close> of the common table expression, each
  with its \<^verbatim>\<open>plot_code_raw\<close>.  The \<^verbatim>\<open>NOT EXISTS\<close> test sees \<^verbatim>\<open>land_plots\<close> as it was
  before the statement.
\<close>

definition seed_insert_sql ::
  "timestamp \<Rightarrow> string \<Rightarrow> string \<Rightarrow> string \<Rightarrow> string \<Rightarrow> string list \<Rightarrow>
     (string \<times> staged_row) list \<Rightarrow> land_plot list \<Rightarrow> sql_error + land_plot list" where
  "seed_insert_sql now dataset_name district ward village attr_cols src tbl =
     (let fresh = filter (\<lambda>(code, r). code \<notin> set (map lp_plot_code tbl)) src
      in case sequence_rows (map (seed_select now dataset_name district ward village attr_cols) fresh) of
           Inl e \<Rightarrow> Inl e
         | Inr ps \<Rightarrow> plain_insert ps tbl)"

text \<open>
  \<^verbatim>\<open>normalize_into_land_plots\<close>.  In the branch for a table with an \<^verbatim>\<open>attributes\<close>
  column the statements that build and run the INSERT stand after the \<^verbatim>\<open>break\<close> of the
  key search, inside its \<^verbatim>\<open>if\<close>, and are never reached: that branch writes nothing.  It
  raises when the sampled value is not a JSON object (a bridge table with a column of
  that name and a non-empty first value).  In the other branch the window is ordered by
  the first attribute column; the rows of the table are taken in that order.
\<close>

definition normalize_into_land_plots ::
  "timestamp \<Rightarrow> staging option \<Rightarrow> string \<Rightarrow> string \<Rightarrow> string \<Rightarrow> string \<Rightarrow> land_plot list \<Rightarrow>
     error + land_plot list" where
  "normalize_into_land_plots now tmp district ward village dataset_name tbl =
     (case tmp of
        None \<Rightarrow> Inl NoGeometryColumn
      | Some (JsonTable rows) \<Rightarrow> Inr tbl
      | Some (ColumnTable col_names rows) \<Rightarrow>
          if ''attributes'' \<in> set col_names then
            (case rows of
               [] \<Rightarrow> Inr tbl
             | r # _ \<Rightarrow>
                 if json_get (sr_attributes r) ''attributes'' \<in> {None, Some []} then Inr tbl
                 else Inl SampleNotAnObject)
          else
            (case geom_col col_names of
               None \<Rightarrow> Inl NoGeometryColumn
             | Some gc \<Rightarrow>
                 (let attr_cols = filter (\<lambda>c. c \<notin> {gc, ''ogc_fid''}) col_names;
                      key = attr_key attr_cols
                  in if attr_cols = [] then Inl (Sql SyntaxError)
                     else
                       (case seed_insert_sql now dataset_name district ward village attr_cols
                               (map (\<lambda>(rn, r). (plot_code_raw key rn (sr_attributes r), r))
                                  (row_number rows))
                               tbl of
                          Inl e \<Rightarrow> Inl (Sql e)
                        | Inr tbl' \<Rightarrow> Inr tbl'))))"

record seed_environment =
  se_files :: files
  se_ogr2ogr :: check_call
  se_python_libs :: bool
  se_features :: "feature list option"
  se_dbf_schema :: "(string \<times> string) list"

definition location_rows :: "string \<Rightarrow> string \<Rightarrow> string \<Rightarrow> land_plot list \<Rightarrow> land_plot list" where
  "location_rows district ward village tbl =
     filter (\<lambda>r. lp_district r = district \<and> lp_ward r = ward \<and> lp_village r = village) tbl"

definition file_text :: "file_state \<Rightarrow> string option" where
  "file_text f = (case f of Readable content \<Rightarrow> Some content | _ \<Rightarrow> None)"

text \<open>
  \<^verbatim>\<open>seed\<close>, whose lines 239-244 (dropping the staging table and loading it with one
  reader or the other) are \<open>load_staging\<close>.  \<open>dataset_name\<close> is the base name of the shapefile.  Exceptions are not
  caught: the import, the normalisation, the hashing of an unreadable sidecar and the
  final log line (which formats the extent of the dataset's rows, NULL when there is
  none) end the call, each leaving behind what was committed before.
\<close>

definition load_staging :: "seed_environment \<Rightarrow> database \<Rightarrow> (error + unit) \<times> database" where
  "load_staging env db =
     (let (imported, db1) = seed_import_with_ogr2ogr (se_ogr2ogr env) (db\<lparr>temp_table := None\<rparr>)
      in if \<not> imported
         then fallback_python_import (se_python_libs env) (se_features env) db1
         else (Inr (), db1))"

definition seed ::
  "externals \<Rightarrow> timestamp \<Rightarrow> seed_environment \<Rightarrow> string \<Rightarrow> string \<Rightarrow> string \<Rightarrow> string \<Rightarrow> database \<Rightarrow>
     (error + unit) \<times> database" where
  "seed X now env dataset_name district ward village db =
     (if \<not> file_exists (se_files env ''shp'') then (Inl ShapefileNotFound, db)
      else
        (let (loaded, db2) = load_staging env db
         in case loaded of
              Inl e \<Rightarrow> (Inl e, db2)
            | Inr u \<Rightarrow>
                (case normalize_into_land_plots now (temp_table db2) district ward village
                        dataset_name (land_plots db2) of
                   Inl e \<Rightarrow> (Inl e, db2)
                 | Inr tbl \<Rightarrow>
                     (let db3 = db2\<lparr>land_plots := tbl\<rparr> in
                      case file_hashes X (se_files env) [''prj'', ''dbf'', ''shx'', ''cpg'', ''shp''] of
                        None \<Rightarrow> (Inl FileUnreadable, db3)
                      | Some hashes \<Rightarrow>
                          (let stats = location_rows district ward village tbl;
                               db4 = db3\<lparr>shapefile_imports :=
                                          upsert_import now
                                            \<lparr>ir_dataset_name = dataset_name,
                                             ir_prj = file_text (se_files env ''prj''),
                                             ir_cpg = map_option strip (file_text (se_files env ''cpg'')),
                                             ir_dbf_schema = se_dbf_schema env,
                                             ir_file_hashes = hashes,
                                             ir_feature_count = length stats,
                                             ir_bbox = extent (map lp_geometry stats),
                                             ir_imported_at = now\<rparr>
                                            (shapefile_imports db3),
                                        temp_table := None\<rparr>
                           in if dataset_count dataset_name tbl = 0 then (Inl StatsFormatting, db4)
                              else (Inr (), db4))))))"

section \<open>Fields outside the conflict action\<close>

text \<open>
  The columns of a \<^verbatim>\<open>land_plots\<close> row that the conflict action
  \<^verbatim>\<open>DO UPDATE SET updated_at = NOW(), attributes = EXCLUDED.attributes\<close> does not name.
\<close>

definition frame_fields ::
  "land_plot \<Rightarrow> string \<times> string \<times> rat \<times> string \<times> string \<times> string \<times> string option \<times> geom \<times> timestamp" where
  "frame_fields r =
     (lp_plot_code r, lp_status r, lp_area_hectares r, lp_district r, lp_ward r, lp_village r,
      lp_dataset_name r, lp_geometry r, lp_created_at r)"

text \<open>
  The two columns of a proposed row that decide how the INSERT treats it: the plot code
  (conflict or not) and the area (CHECK constraint).
\<close>

definition conflict_key :: "land_plot \<Rightarrow> string \<times> rat" where
  "conflict_key p = (lp_plot_code p, lp_area_hectares p)"

text \<open>
  A staged row has no recognised source area field: none of the probed keys is present
  with a value in the JSONB shape, no column of a probed name exists in the bridge shape.
\<close>

definition no_area_field :: "staging \<Rightarrow> staged_row \<Rightarrow> bool" where
  "no_area_field st r =
     (case st of
        JsonTable rows \<Rightarrow> list_all (\<lambda>k. json_get (sr_attributes r) k = None) area_keys
      | ColumnTable cols rows \<Rightarrow> area_col (attr_columns cols) = None)"

section \<open>Replacing bounding boxes\<close>

text \<open>
  To say that a result does not depend on bounding boxes, every geometry of an input is
  given the bounding box \<open>b\<close>: in the source features, in the staging table and in the
  store.  A loop state is compared up to its list of warnings.
\<close>

definition rebox :: "rat \<times> rat \<times> rat \<times> rat \<Rightarrow> geom \<Rightarrow> geom" where
  "rebox b g =
     (case b of (x0, y0, x1, y1) \<Rightarrow> g\<lparr>g_xmin := x0, g_ymin := y0, g_xmax := x1, g_ymax := y1\<rparr>)"

definition rebox_feature :: "rat \<times> rat \<times> rat \<times> rat \<Rightarrow> feature \<Rightarrow> feature" where
  "rebox_feature b f =
     f\<lparr>f_geometry :=
         map_option (\<lambda>s. s\<lparr>sh_geom := rebox b (sh_geom s), sh_fixed := rebox b (sh_fixed s)\<rparr>)
           (f_geometry f)\<rparr>"

definition rebox_item :: "rat \<times> rat \<times> rat \<times> rat \<Rightarrow> batch_item \<Rightarrow> batch_item" where
  "rebox_item b item = item\<lparr>bi_geom := rebox b (bi_geom item)\<rparr>"

definition rebox_row :: "rat \<times> rat \<times> rat \<times> rat \<Rightarrow> staged_row \<Rightarrow> staged_row" where
  "rebox_row b r = r\<lparr>sr_geometry := map_option (rebox b) (sr_geometry r)\<rparr>"

definition rebox_staging :: "rat \<times> rat \<times> rat \<times> rat \<Rightarrow> staging \<Rightarrow> staging" where
  "rebox_staging b st =
     (case st of
        JsonTable rows \<Rightarrow> JsonTable (map (rebox_row b) rows)
      | ColumnTable cols rows \<Rightarrow> ColumnTable cols (map (rebox_row b) rows))"

definition rebox_plot :: "rat \<times> rat \<times> rat \<times> rat \<Rightarrow> land_plot \<Rightarrow> land_plot" where
  "rebox_plot b p = p\<lparr>lp_geometry := rebox b (lp_geometry p)\<rparr>"

definition rebox_db :: "rat \<times> rat \<times> rat \<times> rat \<Rightarrow> database \<Rightarrow> database" where
  "rebox_db b db =
     db\<lparr>land_plots := map (rebox_plot b) (land_plots db),
        temp_table := map_option (rebox_staging b) (temp_table db)\<rparr>"

definition rebox_state :: "rat \<times> rat \<times> rat \<times> rat \<Rightarrow> nat list \<Rightarrow> loop_state \<Rightarrow> loop_state" where
  "rebox_state b ws s =
     \<lparr>ls_batch = map (rebox_item b) (ls_batch s), ls_rows = map (rebox_row b) (ls_rows s),
      ls_imported_count = ls_imported_count s, ls_error_count = ls_error_count s,
      ls_warnings = ws\<rparr>"

text \<open>Feature \<open>i\<close> is staged with a bounding box outside the envelope.\<close>

definition out_of_bounds :: "nat \<Rightarrow> feature \<Rightarrow> bool" where
  "out_of_bounds i f =
     (case prepare_feature i f of
        None \<Rightarrow> False
      | Some item \<Rightarrow> \<not> within_tanzania (bounds (bi_geom item)))"

section \<open>Sample inputs\<close>

text \<open>
  Concrete inputs for the examples that accompany the theorems: a reader of plain
  decimal literals in the place of the NUMERIC input conversion, a tagging function in
  the place of the digest, a small plot near Dodoma, and staging tables of both shapes.
\<close>

definition digit_value :: "char \<Rightarrow> nat option" where
  "digit_value c = map_of (zip ''0123456789'' [0, 1, 2, 3, 4, 5, 6, 7, 8, 9]) c"

fun digits_value :: "nat \<Rightarrow> string \<Rightarrow> nat option" where
  "digits_value acc [] = Some acc"
| "digits_value acc (c # cs) =
     (case digit_value c of None \<Rightarrow> None | Some d \<Rightarrow> digits_value (10 * acc + d) cs)"

definition decimal_in :: "string \<Rightarrow> rat option" where
  "decimal_in s =
     (let whole = takeWhile (\<lambda>c. c \<noteq> CHR ''.'') s;
          frac = drop 1 (dropWhile (\<lambda>c. c \<noteq> CHR ''.'') s)
      in if whole = [] then None
         else map_option (\<lambda>n. of_nat n / 10 ^ length frac) (digits_value 0 (whole @ frac)))"

definition sample_externals :: externals where
  "sample_externals = \<lparr>numeric_in = decimal_in, sha256_hex = (\<lambda>content. ''sha256:'' @ content)\<rparr>"

definition plot_geom :: "string \<Rightarrow> geom" where
  "plot_geom wkt =
     \<lparr>g_wkt = wkt, g_valid = True, g_area = 1 / 1000000, g_geog_area = 1234567 / 100,
      g_xmin = 35, g_ymin = - (6001 / 1000), g_xmax = 35001 / 1000, g_ymax = - 6\<rparr>"

definition staged :: "int \<Rightarrow> geom option \<Rightarrow> props \<Rightarrow> staged_row" where
  "staged i g attrs = \<lparr>sr_id = i, sr_geometry = g, sr_attributes = attrs, sr_original_fid = Some (i - 1)\<rparr>"

definition sample_table :: staging where
  "sample_table =
     JsonTable
       [staged 1 (Some (plot_geom ''a'')) [(''PLOT_CODE'', Some ''A1''), (''area_ha'', Some ''2.5'')],
        staged 2 (Some ((plot_geom ''b'')\<lparr>g_area := 0\<rparr>)) [],
        staged 3 (Some (plot_geom ''c'')) []]"

definition empty_db :: database where
  "empty_db = \<lparr>land_plots = [], shapefile_imports = [], temp_table = None\<rparr>"

definition sample_features :: "feature list" where
  "sample_features =
     [\<lparr>f_geometry = Some \<lparr>sh_type = Polygon, sh_geom = plot_geom ''a'',
                            sh_fixed_type = MultiPolygon, sh_fixed = plot_geom ''a''\<rparr>,
       f_properties = Some [(''PLOT_CODE'', Some ''A1''), (''area_ha'', Some ''2.5'')]\<rparr>,
      \<lparr>f_geometry = Some \<lparr>sh_type = MultiPolygon, sh_geom = (plot_geom ''b'')\<lparr>g_area := 0\<rparr>,
                            sh_fixed_type = MultiPolygon, sh_fixed = (plot_geom ''b'')\<lparr>g_area := 0\<rparr>\<rparr>,
       f_properties = None\<rparr>,
      \<lparr>f_geometry = Some \<lparr>sh_type = Polygon, sh_geom = plot_geom ''c'',
                            sh_fixed_type = MultiPolygon, sh_fixed = plot_geom ''c''\<rparr>,
       f_properties = Some []\<rparr>]"

definition sample_files :: files where
  "sample_files ext =
     (if ext = ''shp'' then Readable ''shape''
      else if ext = ''shx'' then Readable ''index''
      else if ext = ''dbf'' then Readable ''table''
      else Missing)"

text \<open>An execution environment without the converter: the fallback reader does the work.\<close>

definition sample_env :: environment where
  "sample_env =
     \<lparr>env_files = sample_files, env_gdal_version = None, env_ogrinfo = OgrinfoMissing,
      env_ogr2ogr = SpawnFailed, env_python_libs = True, env_features = Some sample_features\<rparr>"

definition sample_columns :: staging where
  "sample_columns =
     ColumnTable [''ogc_fid'', ''plot_code'', ''geometry'']
       [\<lparr>sr_id = 1, sr_geometry = Some (plot_geom ''a''), sr_attributes = [(''plot_code'', Some ''A1'')],
         sr_original_fid = None\<rparr>,
        \<lparr>sr_id = 2, sr_geometry = Some (plot_geom ''c''), sr_attributes = [(''plot_code'', None)],
         sr_original_fid = None\<rparr>]"

definition sample_seed_env :: seed_environment where
  "sample_seed_env =
     \<lparr>se_files = sample_files, se_ogr2ogr = Completed (Some sample_columns), se_python_libs = True,
      se_features = Some sample_features, se_dbf_schema = [(''plot_code'', ''String'')]\<rparr>"

definition taken_plot :: land_plot where
  "taken_plot =
     \<lparr>lp_plot_code = ''A1'', lp_status = ''taken'', lp_area_hectares = 3, lp_district = ''Old'',
      lp_ward = ''Old ward'', lp_village = ''Old village'', lp_dataset_name = Some ''earlier'',
      lp_geometry = plot_geom ''z'', lp_attributes = [(''owner'', JText ''x'')],
      lp_created_at = 1, lp_updated_at = 2\<rparr>"

definition stocked_db :: database where
  "stocked_db = \<lparr>land_plots = [taken_plot], shapefile_imports = [], temp_table = None\<rparr>"

text \<open>The sample sidecars with a projection file that exists and cannot be read.\<close>

definition locked_prj_files :: files where
  "locked_prj_files ext = (if ext = ''prj'' then Unreadable 120 else sample_files ext)"

text \<open>An execution environment in which neither reader can work.\<close>

definition bare_env :: environment where
  "bare_env =
     \<lparr>env_files = sample_files, env_gdal_version = Some ''GDAL 3.4.1'', env_ogrinfo = OgrinfoFailed,
      env_ogr2ogr = TimedOut None, env_python_libs = False, env_features = None\<rparr>"

text \<open>A bounding box far outside the envelope.\<close>

definition far_box :: "rat \<times> rat \<times> rat \<times> rat" where
  "far_box = (100, 50, 101, 51)"

section \<open>Evaluation on literals\<close>

lemma replicate_numeral_unfold: "replicate (numeral k) x = x # replicate (pred_numeral k) x"
  by (simp add: numeral_eq_Suc)

lemma show_nat_numeral:
  "show_nat (numeral k) =
     (if (numeral k :: nat) < 10 then [digit_char (numeral k)]
      else show_nat (numeral k div 10) @ [digit_char (numeral k mod 10)])"
  by (rule show_nat.simps)

lemma show_nat_Suc:
  "show_nat (Suc n) =
     (if Suc n < 10 then [digit_char (Suc n)]
      else show_nat (Suc n div 10) @ [digit_char (Suc n mod 10)])"
  by (rule show_nat.simps)

lemma show_nat_0: "show_nat 0 = ''0''"
  by (simp add: show_nat.simps digit_char_def)

lemma show_nat_1: "show_nat 1 = ''1''"
  by (simp add: show_nat.simps digit_char_def)

lemma floor_numeral_div: "\<lfloor>(numeral a / numeral b :: rat)\<rfloor> = numeral a div numeral b"
  using floor_divide_of_int_eq [of "numeral a" "numeral b", where ?'a = rat] by simp

lemmas text_eval = show_nat_Suc floor_numeral_div show_nat_numeral show_nat_0 show_nat_1
  digit_char_def lpad_def replicate_numeral_unfold lower_def lower_char_def strip_def is_space_def

lemmas upsert_eval = process_imported_data_def insert_sql_def proposed_rows_def candidates_def
  where_clause_def row_number_def json_select_def json_area_def json_plot_code_def json_get_def
  nullif_def numeric_12_4_def geodesic_hectares_def round4_def round_half_away_def new_row_def
  jsonb_concat_def jsonb_of_props_def synthesized_code_def staged_count_def staged_rows_def
  dataset_count_def do_update_def has_attributes_col_def Let_def plot_code_keys_def area_keys_def
  column_select_def column_area_def column_plot_code_def json_build_def attr_columns_def
  system_columns_def plot_code_col_def area_col_def plot_code_names_def area_names_def

lemmas sample_eval = sample_table_def staged_def plot_geom_def empty_db_def sample_externals_def
  decimal_in_def digit_value_def sample_features_def sample_files_def sample_env_def
  sample_columns_def sample_seed_env_def taken_plot_def stocked_db_def locked_prj_files_def
  bare_env_def far_box_def

lemmas run_eval = process_shapefile_def import_shapefile_data_def import_with_ogr2ogr_def
  import_with_python_fallback_def loop_body_def prepare_feature_def execute_batch_insert_def
  staged_of_item_def initial_state_def batch_size_def within_tanzania_def bounds_def
  TANZANIA_north_def TANZANIA_south_def TANZANIA_east_def TANZANIA_west_def
  validate_shapefile_components_def check_component_def components_def required_def
  file_exists_def file_size_def read_text_def create_import_record_def upsert_import_def
  empty_metadata_def

lemmas seed_eval = seed_def load_staging_def seed_import_with_ogr2ogr_def fallback_python_import_def
  normalize_into_land_plots_def seed_insert_sql_def geom_col_def attr_key_def attr_key_names_def mby_code_def plot_code_raw_def
  strip_nulls_build_def seed_select_def location_rows_def file_text_def extent_def

section \<open>The rows the upsert considers and writes\<close>

lemma set_map_filter: "set (List.map_filter f xs) = {y. \<exists>x\<in>set xs. f x = Some y}"
  by (induction xs) (auto split: option.splits)

lemma where_clause_Some:
  "where_clause go = Some g \<longleftrightarrow> go = Some g \<and> g_valid g \<and> 0 < g_area g"
  by (auto simp: where_clause_def split: option.splits if_splits)

lemma candidates_iff:
  "(g, r) \<in> set (candidates rows) \<longleftrightarrow>
     r \<in> set rows \<and> sr_geometry r = Some g \<and> g_valid g \<and> 0 < g_area g"
  by (auto simp: candidates_def set_map_filter where_clause_Some)

lemma sequence_rows_map:
  "sequence_rows (map f xs) = Inr ys \<Longrightarrow>
     length ys = length xs \<and> (\<forall>i<length xs. f (xs ! i) = Inr (ys ! i))"
proof (induction xs arbitrary: ys)
  case Nil
  then show ?case by simp
next
  case (Cons x xs)
  then show ?case
    by (auto split: sum.splits simp: nth_Cons split: nat.splits)
qed

lemma json_select_Inr:
  "json_select X now ds d w v (rn, g, r) = Inr p \<Longrightarrow>
     \<exists>code area attrs. p = new_row now ds d w v code area g attrs"
  by (auto simp: json_select_def split: sum.splits)

lemma column_select_Inr:
  "column_select X now ds d w v cols (rn, g, r) = Inr p \<Longrightarrow>
     \<exists>code area attrs. p = new_row now ds d w v code area g attrs"
  by (auto simp: column_select_def split: sum.splits)

lemma row_number_nth: "i < length xs \<Longrightarrow> row_number xs ! i = (Suc i, xs ! i)"
  by (simp add: row_number_def nth_enumerate_eq)

lemma length_row_number [simp]: "length (row_number xs) = length xs"
  by (simp add: row_number_def)

text \<open>The statement proposes one row per candidate, in the candidates' order.\<close>

lemma proposed_rows_select:
  assumes "proposed_rows X now ds d w v st = Inr ps"
  shows "length ps = length (candidates (staged_rows st)) \<and>
         (\<forall>i<length ps.
            (case st of
               JsonTable rows \<Rightarrow> json_select X now ds d w v
             | ColumnTable cols rows \<Rightarrow> column_select X now ds d w v (attr_columns cols))
              (Suc i, candidates (staged_rows st) ! i) = Inr (ps ! i))"
proof (cases st)
  case (JsonTable rows)
  with assms have seq:
    "sequence_rows (map (json_select X now ds d w v) (row_number (candidates rows))) = Inr ps"
    by (simp add: proposed_rows_def)
  from sequence_rows_map [OF seq] JsonTable show ?thesis
    by (simp add: staged_rows_def row_number_nth)
next
  case (ColumnTable cols rows)
  with assms have seq:
    "sequence_rows (map (column_select X now ds d w v (attr_columns cols))
       (row_number (candidates rows))) = Inr ps"
    by (simp add: proposed_rows_def split: if_splits)
  from sequence_rows_map [OF seq] ColumnTable show ?thesis
    by (simp add: staged_rows_def row_number_nth)
qed

lemma proposed_rows_nth:
  assumes "proposed_rows X now ds d w v st = Inr ps" and "i < length ps"
  shows "\<exists>code area attrs.
           ps ! i = new_row now ds d w v code area (fst (candidates (staged_rows st) ! i)) attrs"
proof -
  obtain g r where gr: "candidates (staged_rows st) ! i = (g, r)"
    by (cases "candidates (staged_rows st) ! i")
  from proposed_rows_select [OF assms(1)] assms(2)
  have sel: "(case st of
                JsonTable rows \<Rightarrow> json_select X now ds d w v
              | ColumnTable cols rows \<Rightarrow> column_select X now ds d w v (attr_columns cols))
               (Suc i, candidates (staged_rows st) ! i) = Inr (ps ! i)"
    by simp
  show ?thesis
  proof (cases st)
    case (JsonTable rows)
    with sel gr have "json_select X now ds d w v (Suc i, g, r) = Inr (ps ! i)"
      by simp
    from json_select_Inr [OF this] gr show ?thesis by simp
  next
    case (ColumnTable cols rows)
    with sel gr have "column_select X now ds d w v (attr_columns cols) (Suc i, g, r) = Inr (ps ! i)"
      by simp
    from column_select_Inr [OF this] gr show ?thesis by simp
  qed
qed

lemma proposed_rows_geometry:
  assumes "proposed_rows X now ds d w v st = Inr ps"
  shows "map lp_geometry ps = map fst (candidates (staged_rows st))"
proof (rule nth_equalityI)
  from proposed_rows_select [OF assms]
  show "length (map lp_geometry ps) = length (map fst (candidates (staged_rows st)))"
    by simp
next
  fix i assume "i < length (map lp_geometry ps)"
  then have i: "i < length ps" by simp
  from proposed_rows_nth [OF assms i] obtain code area attrs where
    "ps ! i = new_row now ds d w v code area (fst (candidates (staged_rows st) ! i)) attrs"
    by blast
  moreover from i proposed_rows_select [OF assms]
  have "i < length (candidates (staged_rows st))" by simp
  ultimately show "map lp_geometry ps ! i = map fst (candidates (staged_rows st)) ! i"
    using i by (simp add: new_row_def)
qed

lemma proposed_rows_fixed:
  assumes "proposed_rows X now ds d w v st = Inr ps" and "p \<in> set ps"
  shows "lp_status p = ''available'' \<and> lp_updated_at p = now \<and> lp_created_at p = now \<and>
         lp_dataset_name p = Some ds"
proof -
  from assms(2) obtain i where i: "i < length ps" and p: "ps ! i = p"
    by (auto simp: in_set_conv_nth)
  from proposed_rows_nth [OF assms(1) i] p obtain code area g attrs where
    "p = new_row now ds d w v code area g attrs"
    by auto
  then show ?thesis
    by (simp add: new_row_def)
qed

lemma frame_do_update: "frame_fields (do_update now p r) = frame_fields r"
  by (simp add: frame_fields_def do_update_def)

text \<open>
  The upsert keeps every old row in its place, with its frame, and each row behind them
  has the frame of a proposed row.
\<close>

lemma on_conflict_update_frame:
  "on_conflict_update now ps touched tbl = Inr tbl' \<Longrightarrow>
     length tbl \<le> length tbl' \<and>
     map frame_fields (take (length tbl) tbl') = map frame_fields tbl \<and>
     frame_fields ` set (drop (length tbl) tbl') \<subseteq> frame_fields ` set ps"
proof (induction ps arbitrary: touched tbl)
  case Nil
  then show ?case by simp
next
  case (Cons p ps)
  show ?case
  proof (cases "lp_plot_code p \<in> set (map lp_plot_code tbl)")
    case True
    with Cons.prems have run:
      "on_conflict_update now ps (lp_plot_code p # touched) (map (do_update now p) tbl) = Inr tbl'"
      by (simp split: if_splits)
    from Cons.IH [OF run] show ?thesis
      by (auto simp: frame_do_update comp_def)
  next
    case False
    with Cons.prems have run:
      "on_conflict_update now ps (lp_plot_code p # touched) (tbl @ [p]) = Inr tbl'"
      by (simp split: if_splits)
    from Cons.IH [OF run] have len: "Suc (length tbl) \<le> length tbl'"
      and fr: "map frame_fields (take (Suc (length tbl)) tbl') = map frame_fields tbl @ [frame_fields p]"
      and rest: "frame_fields ` set (drop (Suc (length tbl)) tbl') \<subseteq> frame_fields ` set ps"
      by simp_all
    from len have cut: "take (Suc (length tbl)) tbl' = take (length tbl) tbl' @ [tbl' ! length tbl]"
      by (simp add: take_Suc_conv_app_nth)
    from fr cut have old: "map frame_fields (take (length tbl) tbl') = map frame_fields tbl"
      by simp
    from fr cut have new: "frame_fields (tbl' ! length tbl) = frame_fields p"
      by simp
    from len have "drop (length tbl) tbl' = tbl' ! length tbl # drop (Suc (length tbl)) tbl'"
      by (simp add: Cons_nth_drop_Suc)
    with rest new have "frame_fields ` set (drop (length tbl) tbl') \<subseteq> frame_fields ` set (p # ps)"
      by auto
    with len old show ?thesis by simp
  qed
qed

lemma on_conflict_update_checked:
  "on_conflict_update now ps touched tbl = Inr tbl' \<Longrightarrow> \<forall>p\<in>set ps. 0 < lp_area_hectares p"
  by (induction ps arbitrary: touched tbl) (auto split: if_splits)

text \<open>What \<^verbatim>\<open>process_imported_data\<close> does to \<^verbatim>\<open>land_plots\<close>.\<close>

lemma process_imported_data_cases:
  "land_plots (snd (process_imported_data X now ds d w v db)) = land_plots db \<or>
   (\<exists>st ps. temp_table db = Some st \<and> proposed_rows X now ds d w v st = Inr ps \<and>
      on_conflict_update now ps [] (land_plots db) =
        Inr (land_plots (snd (process_imported_data X now ds d w v db))))"
  by (auto simp: process_imported_data_def insert_sql_def Let_def split: option.splits sum.splits)

text \<open>
  Claim C5.  A staged row is among the rows the INSERT considers exactly when its
  geometry is not NULL, is valid and has positive planar area; the statement proposes one
  row per considered row, carrying that row's geometry; and every row that
  \<^verbatim>\<open>process_imported_data\<close> adds to \<^verbatim>\<open>land_plots\<close> has status \<^verbatim>\<open>available\<close>.
\<close>

theorem considered_iff_valid_and_inserted_available:
  "((g, r) \<in> set (candidates (staged_rows st)) \<longleftrightarrow>
      r \<in> set (staged_rows st) \<and> sr_geometry r = Some g \<and> g_valid g \<and> 0 < g_area g) \<and>
   (\<forall>ps. proposed_rows X now ds d w v st = Inr ps \<longrightarrow>
      map lp_geometry ps = map fst (candidates (staged_rows st))) \<and>
   (\<forall>p \<in> set (drop (length (land_plots db))
                 (land_plots (snd (process_imported_data X now ds d w v db)))).
      lp_status p = ''available'')"
proof (intro conjI impI ballI allI)
  show "(g, r) \<in> set (candidates (staged_rows st)) \<longleftrightarrow>
      r \<in> set (staged_rows st) \<and> sr_geometry r = Some g \<and> g_valid g \<and> 0 < g_area g"
    by (rule candidates_iff)
next
  fix ps assume "proposed_rows X now ds d w v st = Inr ps"
  then show "map lp_geometry ps = map fst (candidates (staged_rows st))"
    by (rule proposed_rows_geometry)
next
  fix p
  let ?tbl' = "land_plots (snd (process_imported_data X now ds d w v db))"
  assume p: "p \<in> set (drop (length (land_plots db)) ?tbl')"
  from process_imported_data_cases [of X now ds d w v db]
  show "lp_status p = ''available''"
  proof
    assume "?tbl' = land_plots db"
    with p show ?thesis by simp
  next
    assume "\<exists>st ps. temp_table db = Some st \<and> proposed_rows X now ds d w v st = Inr ps \<and>
      on_conflict_update now ps [] (land_plots db) = Inr ?tbl'"
    then obtain st' ps' where prp: "proposed_rows X now ds d w v st' = Inr ps'"
      and ups: "on_conflict_update now ps' [] (land_plots db) = Inr ?tbl'"
      by blast
    from on_conflict_update_frame [OF ups] p have "frame_fields p \<in> frame_fields ` set ps'"
      by blast
    then obtain q where q: "q \<in> set ps'" and "frame_fields p = frame_fields q" by blast
    then have "lp_status p = lp_status q" by (simp add: frame_fields_def)
    with proposed_rows_fixed [OF prp q] show ?thesis by simp
  qed
qed

theorem considered_iff_valid_and_inserted_available_witness:
  "(plot_geom ''c'', staged 3 (Some (plot_geom ''c'')) []) \<in> set (candidates (staged_rows sample_table)) \<and>
   (\<forall>g. (g, staged 2 (Some ((plot_geom ''b'')\<lparr>g_area := 0\<rparr>)) []) \<notin> set (candidates (staged_rows sample_table))) \<and>
   map lp_geometry
     (projr (proposed_rows sample_externals 7 ''survey1'' ''Dodoma'' ''Kati'' ''Mbuyuni'' sample_table)) =
     [plot_geom ''a'', plot_geom ''c''] \<and>
   map lp_status
     (drop (length (land_plots empty_db))
        (land_plots (snd (process_imported_data sample_externals 7 ''survey1'' ''Dodoma'' ''Kati''
           ''Mbuyuni'' (empty_db\<lparr>temp_table := Some sample_table\<rparr>))))) =
     [''available'', ''available'']"
  using considered_iff_valid_and_inserted_available
    [of "plot_geom ''c''" "staged 3 (Some (plot_geom ''c'')) []" sample_table sample_externals 7
        "''survey1''" "''Dodoma''" "''Kati''" "''Mbuyuni''" "empty_db\<lparr>temp_table := Some sample_table\<rparr>"]
  by (simp add: sample_eval upsert_eval text_eval)

section \<open>What a run does to the rows it finds\<close>

lemma import_with_ogr2ogr_land_plots:
  "land_plots (snd (import_with_ogr2ogr run db)) = land_plots db"
  by (simp add: import_with_ogr2ogr_def Let_def split: ogr2ogr_run.splits option.splits)

lemma import_with_python_fallback_land_plots:
  "land_plots (snd (import_with_python_fallback libs src db)) = land_plots db"
  by (simp add: import_with_python_fallback_def Let_def split: option.splits sum.splits)

lemma import_shapefile_data_land_plots:
  "land_plots (snd (import_shapefile_data env db)) = land_plots db"
  by (simp add: import_shapefile_data_def split_def Let_def import_with_ogr2ogr_land_plots
      import_with_python_fallback_land_plots)

lemma create_import_record_land_plots:
  "land_plots (create_import_record X now fs ds vr md n db) = land_plots db"
  by (simp add: create_import_record_def split: option.splits)

text \<open>
  A run of \<^verbatim>\<open>process_shapefile\<close> either leaves \<^verbatim>\<open>land_plots\<close> alone or hands it to
  \<^verbatim>\<open>process_imported_data\<close>, together with the staging table the readers produced.
\<close>

lemma process_shapefile_land_plots:
  "land_plots (snd (process_shapefile X now env ds d w v db)) = land_plots db \<or>
   land_plots (snd (process_shapefile X now env ds d w v db)) =
     land_plots (snd (process_imported_data X now ds d w v (snd (import_shapefile_data env db))))"
  by (auto simp: process_shapefile_def Let_def split_def import_shapefile_data_land_plots
      create_import_record_land_plots split: sum.splits prod.splits)

lemma process_imported_data_frame:
  "length (land_plots db) \<le> length (land_plots (snd (process_imported_data X now ds d w v db))) \<and>
   map frame_fields (take (length (land_plots db))
      (land_plots (snd (process_imported_data X now ds d w v db)))) =
     map frame_fields (land_plots db)"
  using process_imported_data_cases [of X now ds d w v db]
  by (auto dest: on_conflict_update_frame)

lemma process_shapefile_frame:
  "length (land_plots db) \<le> length (land_plots (snd (process_shapefile X now env ds d w v db))) \<and>
   map frame_fields (take (length (land_plots db))
      (land_plots (snd (process_shapefile X now env ds d w v db)))) =
     map frame_fields (land_plots db)"
  using process_shapefile_land_plots [of X now env ds d w v db]
    process_imported_data_frame [of "snd (import_shapefile_data env db)" X now ds d w v]
  by (auto simp: import_shapefile_data_land_plots)

lemma plain_insert_appends: "plain_insert ps tbl = Inr tbl' \<Longrightarrow> tbl' = tbl @ ps"
proof (induction ps arbitrary: tbl)
  case Nil
  then show ?case by simp
next
  case (Cons p ps)
  from Cons.prems have "plain_insert ps (tbl @ [p]) = Inr tbl'"
    by (simp split: if_splits)
  from Cons.IH [OF this] show ?case by simp
qed

lemma normalize_appends:
  "normalize_into_land_plots now tmp d w v ds tbl = Inr tbl' \<Longrightarrow> \<exists>ps. tbl' = tbl @ ps"
  by (auto simp: normalize_into_land_plots_def seed_insert_sql_def Let_def dest: plain_insert_appends
      split: option.splits staging.splits list.splits if_splits sum.splits)

lemma seed_import_with_ogr2ogr_land_plots:
  "land_plots (snd (seed_import_with_ogr2ogr run db)) = land_plots db"
  by (simp add: seed_import_with_ogr2ogr_def split: check_call.splits)

lemma fallback_python_import_land_plots:
  "land_plots (snd (fallback_python_import libs src db)) = land_plots db"
  by (simp add: fallback_python_import_def Let_def split: option.splits sum.splits)

lemma load_staging_land_plots: "land_plots (snd (load_staging env db)) = land_plots db"
  by (simp add: load_staging_def split_def Let_def seed_import_with_ogr2ogr_land_plots
      fallback_python_import_land_plots)

text \<open>
  A run of \<^verbatim>\<open>seed\<close> leaves \<^verbatim>\<open>land_plots\<close> alone unless the staging table was loaded
  and the normalisation succeeded.
\<close>

lemma seed_land_plots:
  "land_plots (snd (seed X now env ds d w v db)) =
     (if file_exists (se_files env ''shp'') \<and> fst (load_staging env db) = Inr ()
      then (case normalize_into_land_plots now (temp_table (snd (load_staging env db))) d w v ds
                   (land_plots db) of
              Inl e \<Rightarrow> land_plots db
            | Inr tbl \<Rightarrow> tbl)
      else land_plots db)"
  by (auto simp: seed_def Let_def split_def load_staging_land_plots
      split: sum.splits option.splits)

lemma seed_appends:
  "\<exists>ps. land_plots (snd (seed X now env ds d w v db)) = land_plots db @ ps"
  using seed_land_plots [of X now env ds d w v db]
  by (auto dest: normalize_appends split: sum.splits if_splits)

text \<open>
  Claim C2.  Whatever a later run of either script stages, a row that is already in
  \<^verbatim>\<open>land_plots\<close> stays in its place and keeps its plot code, status, area, district,
  ward, village, dataset name, geometry and creation time: \<^verbatim>\<open>process_shapefile\<close> can
  change its attributes and \<^verbatim>\<open>updated_at\<close> only, and \<^verbatim>\<open>seed\<close> changes nothing of it.
\<close>

theorem conflict_changes_only_attributes_and_updated_at:
  assumes "i < length (land_plots db)"
  shows "i < length (land_plots (snd (process_shapefile X now env ds d w v db))) \<and>
         frame_fields (land_plots (snd (process_shapefile X now env ds d w v db)) ! i) =
           frame_fields (land_plots db ! i) \<and>
         i < length (land_plots (snd (seed X now senv ds d w v db))) \<and>
         land_plots (snd (seed X now senv ds d w v db)) ! i = land_plots db ! i"
proof -
  let ?tbl = "land_plots (snd (process_shapefile X now env ds d w v db))"
  from process_shapefile_frame [of db X now env ds d w v]
  have len: "length (land_plots db) \<le> length ?tbl"
    and fr: "map frame_fields (take (length (land_plots db)) ?tbl) = map frame_fields (land_plots db)"
    by simp_all
  from fr have "map frame_fields (take (length (land_plots db)) ?tbl) ! i =
      map frame_fields (land_plots db) ! i"
    by simp
  with assms len have "frame_fields (?tbl ! i) = frame_fields (land_plots db ! i)"
    by simp
  moreover from seed_appends [of X now senv ds d w v db] obtain ps where
    "land_plots (snd (seed X now senv ds d w v db)) = land_plots db @ ps"
    by blast
  with assms have "i < length (land_plots (snd (seed X now senv ds d w v db))) \<and>
      land_plots (snd (seed X now senv ds d w v db)) ! i = land_plots db ! i"
    by (simp add: nth_append)
  ultimately show ?thesis
    using assms len by simp
qed

theorem conflict_changes_only_attributes_and_updated_at_witness:
  "0 < length (land_plots stocked_db) \<and>
   frame_fields
     (land_plots (snd (process_shapefile sample_externals 7 sample_env ''survey1'' ''Dodoma'' ''Kati''
        ''Mbuyuni'' stocked_db)) ! 0) = frame_fields taken_plot \<and>
   lp_updated_at
     (land_plots (snd (process_shapefile sample_externals 7 sample_env ''survey1'' ''Dodoma'' ''Kati''
        ''Mbuyuni'' stocked_db)) ! 0) = 7 \<and>
   land_plots (snd (seed sample_externals 7 sample_seed_env ''survey1'' ''Dodoma'' ''Kati''
        ''Mbuyuni'' stocked_db)) ! 0 = taken_plot"
proof -
  have h: "0 < length (land_plots stocked_db)"
    by (simp add: stocked_db_def)
  have upd: "lp_updated_at
     (land_plots (snd (process_shapefile sample_externals 7 sample_env ''survey1'' ''Dodoma'' ''Kati''
        ''Mbuyuni'' stocked_db)) ! 0) = 7"
    by (simp add: sample_eval run_eval upsert_eval text_eval)
  from conflict_changes_only_attributes_and_updated_at
    [OF h, of sample_externals 7 sample_env "''survey1''" "''Dodoma''" "''Kati''" "''Mbuyuni''"
       sample_seed_env]
  show ?thesis using h upd
    by (simp add: stocked_db_def)
qed

section \<open>Running the same import again\<close>

text \<open>The clock enters a proposed row through its timestamps and attributes only.\<close>

lemma json_select_retime:
  "map_sum id conflict_key (json_select X t1 ds d w v c) =
   map_sum id conflict_key (json_select X t2 ds d w v c)"
  by (cases c) (simp add: json_select_def new_row_def conflict_key_def split: sum.splits)

lemma column_select_retime:
  "map_sum id conflict_key (column_select X t1 ds d w v cols c) =
   map_sum id conflict_key (column_select X t2 ds d w v cols c)"
  by (cases c) (simp add: column_select_def new_row_def conflict_key_def split: sum.splits)

lemma sequence_rows_map_sum:
  "map_sum id (map k) (sequence_rows xs) = sequence_rows (map (map_sum id k) xs)"
  by (induction xs) (auto split: sum.splits)

lemma proposed_rows_retime:
  "map_sum id (map conflict_key) (proposed_rows X t1 ds d w v st) =
   map_sum id (map conflict_key) (proposed_rows X t2 ds d w v st)"
proof (cases st)
  case (JsonTable rows)
  have "map_sum id conflict_key \<circ> json_select X t1 ds d w v =
        map_sum id conflict_key \<circ> json_select X t2 ds d w v"
    by (rule ext) (simp add: json_select_retime)
  with JsonTable show ?thesis
    by (simp add: proposed_rows_def sequence_rows_map_sum)
next
  case (ColumnTable cols rows)
  have "map_sum id conflict_key \<circ> column_select X t1 ds d w v (attr_columns cols) =
        map_sum id conflict_key \<circ> column_select X t2 ds d w v (attr_columns cols)"
    by (rule ext) (simp add: column_select_retime)
  with ColumnTable show ?thesis
    by (simp add: proposed_rows_def sequence_rows_map_sum)
qed

lemma proposed_rows_retime_Inl:
  assumes "proposed_rows X t1 ds d w v st = Inl e"
  shows "proposed_rows X t2 ds d w v st = Inl e"
  using proposed_rows_retime [of X t1 ds d w v st t2] assms
  by (cases "proposed_rows X t2 ds d w v st") simp_all

lemma proposed_rows_retime_Inr:
  assumes "proposed_rows X t1 ds d w v st = Inr ps"
  shows "\<exists>ps'. proposed_rows X t2 ds d w v st = Inr ps' \<and> map conflict_key ps' = map conflict_key ps"
  using proposed_rows_retime [of X t1 ds d w v st t2] assms
  by (cases "proposed_rows X t2 ds d w v st") simp_all

lemma conflict_key_codes:
  "map conflict_key ps' = map conflict_key ps \<Longrightarrow> map lp_plot_code ps' = map lp_plot_code ps"
proof -
  assume "map conflict_key ps' = map conflict_key ps"
  then have "map fst (map conflict_key ps') = map fst (map conflict_key ps)" by simp
  then show ?thesis by (simp add: comp_def conflict_key_def)
qed

lemma conflict_key_areas:
  "map conflict_key ps' = map conflict_key ps \<Longrightarrow>
     map lp_area_hectares ps' = map lp_area_hectares ps"
proof -
  assume "map conflict_key ps' = map conflict_key ps"
  then have "map snd (map conflict_key ps') = map snd (map conflict_key ps)" by simp
  then show ?thesis by (simp add: comp_def conflict_key_def)
qed

text \<open>
  Whether the upsert fails, and with which plot codes it ends, depends on the proposed
  rows through their keys and on the table through its plot codes.
\<close>

lemma map_do_update_codes: "map lp_plot_code (map (do_update now p) tbl) = map lp_plot_code tbl"
  by (simp add: do_update_def comp_def)

lemma on_conflict_update_skeleton:
  "map conflict_key ps = map conflict_key ps' \<Longrightarrow>
   map lp_plot_code tbl = map lp_plot_code tbl' \<Longrightarrow>
   map_sum id (map lp_plot_code) (on_conflict_update t1 ps touched tbl) =
   map_sum id (map lp_plot_code) (on_conflict_update t2 ps' touched tbl')"
proof (induction ps arbitrary: ps' touched tbl tbl')
  case Nil
  then show ?case by simp
next
  case (Cons p ps)
  from Cons.prems(1) obtain p' ps'' where ps': "ps' = p' # ps''"
    and key: "conflict_key p = conflict_key p'" and keys: "map conflict_key ps = map conflict_key ps''"
    by (cases ps') auto
  from key have code: "lp_plot_code p = lp_plot_code p'" and area: "lp_area_hectares p = lp_area_hectares p'"
    by (simp_all add: conflict_key_def)
  from Cons.prems(2) have mem:
    "lp_plot_code p \<in> set (map lp_plot_code tbl) \<longleftrightarrow> lp_plot_code p' \<in> set (map lp_plot_code tbl')"
    using code by simp
  have upd: "map lp_plot_code (map (do_update t1 p) tbl) = map lp_plot_code (map (do_update t2 p') tbl')"
    using Cons.prems(2) by (simp only: map_do_update_codes)
  have app: "map lp_plot_code (tbl @ [p]) = map lp_plot_code (tbl' @ [p'])"
    using Cons.prems(2) code by simp
  show ?case
    unfolding ps'
    using Cons.IH [OF keys upd, of "lp_plot_code p # touched"]
      Cons.IH [OF keys app, of "lp_plot_code p # touched"] code area mem
    by (simp del: map_map map_append)
qed

lemma on_conflict_update_codes_mono:
  assumes "on_conflict_update now ps touched tbl = Inr tbl'"
  shows "set (map lp_plot_code tbl) \<subseteq> set (map lp_plot_code tbl')"
proof -
  from on_conflict_update_frame [OF assms]
  have "map frame_fields (take (length tbl) tbl') = map frame_fields tbl" by simp
  then have "map fst (map frame_fields (take (length tbl) tbl')) = map fst (map frame_fields tbl)"
    by simp
  then have "map lp_plot_code (take (length tbl) tbl') = map lp_plot_code tbl"
    by (simp add: comp_def frame_fields_def)
  then have "set (map lp_plot_code tbl) = set (map lp_plot_code (take (length tbl) tbl'))"
    by simp
  also have "\<dots> \<subseteq> set (map lp_plot_code tbl')"
    using set_take_subset [of "length tbl" tbl'] by auto
  finally show ?thesis .
qed

text \<open>After a successful upsert every proposed plot code is in the table, once.\<close>

lemma on_conflict_update_post:
  "on_conflict_update now ps touched tbl = Inr tbl' \<Longrightarrow>
     distinct (map lp_plot_code ps) \<and> set (map lp_plot_code ps) \<inter> set touched = {} \<and>
     set (map lp_plot_code ps) \<subseteq> set (map lp_plot_code tbl')"
proof (induction ps arbitrary: touched tbl)
  case Nil
  then show ?case by simp
next
  case (Cons p ps)
  from Cons.prems have fresh: "lp_plot_code p \<notin> set touched"
    by (simp split: if_splits)
  obtain mid where run: "on_conflict_update now ps (lp_plot_code p # touched) mid = Inr tbl'"
    and mid: "lp_plot_code p \<in> set (map lp_plot_code mid)"
  proof (cases "lp_plot_code p \<in> set (map lp_plot_code tbl)")
    case True
    with Cons.prems have
      "on_conflict_update now ps (lp_plot_code p # touched) (map (do_update now p) tbl) = Inr tbl'"
      by (simp split: if_splits)
    moreover from True have "lp_plot_code p \<in> set (map lp_plot_code (map (do_update now p) tbl))"
      by (simp only: map_do_update_codes)
    ultimately show ?thesis by (rule that)
  next
    case False
    with Cons.prems have
      "on_conflict_update now ps (lp_plot_code p # touched) (tbl @ [p]) = Inr tbl'"
      by (simp split: if_splits)
    moreover have "lp_plot_code p \<in> set (map lp_plot_code (tbl @ [p]))" by simp
    ultimately show ?thesis by (rule that)
  qed
  from Cons.IH [OF run] have d: "distinct (map lp_plot_code ps)"
    and t: "set (map lp_plot_code ps) \<inter> set (lp_plot_code p # touched) = {}"
    and s: "set (map lp_plot_code ps) \<subseteq> set (map lp_plot_code tbl')"
    by simp_all
  from on_conflict_update_codes_mono [OF run] mid
  have "lp_plot_code p \<in> set (map lp_plot_code tbl')" by blast
  with d t s fresh show ?case by auto
qed

text \<open>When every proposed plot code is in the table, every proposed row is a conflict.\<close>

lemma on_conflict_update_all_conflicts:
  "distinct (map lp_plot_code ps) \<Longrightarrow> set (map lp_plot_code ps) \<inter> set touched = {} \<Longrightarrow>
   set (map lp_plot_code ps) \<subseteq> set (map lp_plot_code tbl) \<Longrightarrow>
   \<forall>p\<in>set ps. 0 < lp_area_hectares p \<Longrightarrow>
   \<exists>tbl2. on_conflict_update now ps touched tbl = Inr tbl2 \<and> length tbl2 = length tbl"
proof (induction ps arbitrary: touched tbl)
  case Nil
  then show ?case by simp
next
  case (Cons p ps)
  let ?mid = "map (do_update now p) tbl"
  from Cons.prems have step:
    "on_conflict_update now (p # ps) touched tbl =
       on_conflict_update now ps (lp_plot_code p # touched) ?mid"
    by simp
  have "\<exists>tbl2. on_conflict_update now ps (lp_plot_code p # touched) ?mid = Inr tbl2 \<and>
          length tbl2 = length ?mid"
  proof (rule Cons.IH)
    from Cons.prems(1) show "distinct (map lp_plot_code ps)" by simp
    from Cons.prems(1,2) show "set (map lp_plot_code ps) \<inter> set (lp_plot_code p # touched) = {}"
      by auto
    from Cons.prems(3) show "set (map lp_plot_code ps) \<subseteq> set (map lp_plot_code ?mid)"
      by (simp only: map_do_update_codes) simp
    from Cons.prems(4) show "\<forall>p\<in>set ps. 0 < lp_area_hectares p" by simp
  qed
  with step show ?case by simp
qed

text \<open>Rows whose plot code was proposed carry the time of the statement.\<close>

lemma on_conflict_update_stamps:
  "on_conflict_update now ps touched tbl = Inr tbl' \<Longrightarrow>
   \<forall>p\<in>set ps. lp_updated_at p = now \<Longrightarrow>
   \<forall>r\<in>set tbl. lp_plot_code r \<in> S \<longrightarrow> lp_updated_at r = now \<Longrightarrow>
   \<forall>r\<in>set tbl'. lp_plot_code r \<in> S \<union> set (map lp_plot_code ps) \<longrightarrow> lp_updated_at r = now"
proof (induction ps arbitrary: touched tbl S)
  case Nil
  then show ?case by simp
next
  case (Cons p ps)
  let ?S = "insert (lp_plot_code p) S"
  have goal: "\<forall>r\<in>set tbl'. lp_plot_code r \<in> ?S \<union> set (map lp_plot_code ps) \<longrightarrow> lp_updated_at r = now"
  proof (cases "lp_plot_code p \<in> set (map lp_plot_code tbl)")
    case True
    with Cons.prems(1) have run:
      "on_conflict_update now ps (lp_plot_code p # touched) (map (do_update now p) tbl) = Inr tbl'"
      by (simp split: if_splits)
    show ?thesis
    proof (rule Cons.IH [OF run])
      from Cons.prems(2) show "\<forall>p\<in>set ps. lp_updated_at p = now" by simp
      from Cons.prems(3)
      show "\<forall>r\<in>set (map (do_update now p) tbl). lp_plot_code r \<in> ?S \<longrightarrow> lp_updated_at r = now"
        by (auto simp: do_update_def)
    qed
  next
    case False
    with Cons.prems(1) have run:
      "on_conflict_update now ps (lp_plot_code p # touched) (tbl @ [p]) = Inr tbl'"
      by (simp split: if_splits)
    show ?thesis
    proof (rule Cons.IH [OF run])
      from Cons.prems(2) show "\<forall>p\<in>set ps. lp_updated_at p = now" by simp
      from False have "\<forall>r\<in>set tbl. lp_plot_code r \<noteq> lp_plot_code p"
        by (metis image_eqI set_map)
      with Cons.prems(2,3)
      show "\<forall>r\<in>set (tbl @ [p]). lp_plot_code r \<in> ?S \<longrightarrow> lp_updated_at r = now"
        by auto
    qed
  qed
  then show ?case by simp
qed

lemma insert_sql_again_Inl:
  assumes "insert_sql X t1 ds d w v st tbl = Inl e"
  shows "insert_sql X t2 ds d w v st tbl = Inl e"
proof (cases "proposed_rows X t1 ds d w v st")
  case (Inl e')
  with assms have "e' = e" by (simp add: insert_sql_def)
  with Inl proposed_rows_retime_Inl [of X t1 ds d w v st e' t2] show ?thesis
    by (simp add: insert_sql_def)
next
  case (Inr ps)
  with assms have fail: "on_conflict_update t1 ps [] tbl = Inl e"
    by (simp add: insert_sql_def)
  from proposed_rows_retime_Inr [OF Inr, of t2] obtain ps' where
    ps': "proposed_rows X t2 ds d w v st = Inr ps'" and keys: "map conflict_key ps' = map conflict_key ps"
    by blast
  from on_conflict_update_skeleton [OF keys [symmetric] refl, of t1 "[]" tbl t2] fail
  have "on_conflict_update t2 ps' [] tbl = Inl e"
    by (cases "on_conflict_update t2 ps' [] tbl") simp_all
  with ps' show ?thesis by (simp add: insert_sql_def)
qed

text \<open>
  The second statement over the same staging table meets every plot code in the table
  that the first one left: it proposes the same codes, succeeds, and adds no row.
\<close>

lemma insert_sql_again_Inr:
  assumes "insert_sql X t1 ds d w v st tbl = Inr tbl1"
  shows "\<exists>ps ps' tbl2.
           proposed_rows X t1 ds d w v st = Inr ps \<and> on_conflict_update t1 ps [] tbl = Inr tbl1 \<and>
           proposed_rows X t2 ds d w v st = Inr ps' \<and>
           map lp_plot_code ps' = map lp_plot_code ps \<and>
           on_conflict_update t2 ps' [] tbl1 = Inr tbl2 \<and>
           insert_sql X t2 ds d w v st tbl1 = Inr tbl2 \<and> length tbl2 = length tbl1"
proof -
  from assms obtain ps where ps: "proposed_rows X t1 ds d w v st = Inr ps"
    and run: "on_conflict_update t1 ps [] tbl = Inr tbl1"
    by (auto simp: insert_sql_def split: sum.splits)
  from proposed_rows_retime_Inr [OF ps, of t2] obtain ps' where
    ps': "proposed_rows X t2 ds d w v st = Inr ps'" and keys: "map conflict_key ps' = map conflict_key ps"
    by blast
  from keys have codes: "map lp_plot_code ps' = map lp_plot_code ps"
    by (rule conflict_key_codes)
  from keys have areas: "map lp_area_hectares ps' = map lp_area_hectares ps"
    by (rule conflict_key_areas)
  from on_conflict_update_post [OF run] have d: "distinct (map lp_plot_code ps)"
    and s: "set (map lp_plot_code ps) \<subseteq> set (map lp_plot_code tbl1)"
    by simp_all
  from on_conflict_update_checked [OF run] have "\<forall>a\<in>set (map lp_area_hectares ps). 0 < a"
    by simp
  with areas have "\<forall>a\<in>set (map lp_area_hectares ps'). 0 < a"
    by simp
  then have pos: "\<forall>p\<in>set ps'. 0 < lp_area_hectares p"
    by simp
  have "\<exists>tbl2. on_conflict_update t2 ps' [] tbl1 = Inr tbl2 \<and> length tbl2 = length tbl1"
  proof (rule on_conflict_update_all_conflicts)
    from d codes show "distinct (map lp_plot_code ps')" by simp
    show "set (map lp_plot_code ps') \<inter> set [] = {}" by simp
    from s codes show "set (map lp_plot_code ps') \<subseteq> set (map lp_plot_code tbl1)" by simp
    from pos show "\<forall>p\<in>set ps'. 0 < lp_area_hectares p" .
  qed
  then obtain tbl2 where again: "on_conflict_update t2 ps' [] tbl1 = Inr tbl2"
    and len: "length tbl2 = length tbl1"
    by blast
  from ps' again have "insert_sql X t2 ds d w v st tbl1 = Inr tbl2"
    by (simp add: insert_sql_def)
  with ps run ps' codes again len show ?thesis by blast
qed

lemma process_imported_data_again:
  assumes "temp_table db' = temp_table db"
    and "land_plots db' = land_plots (snd (process_imported_data X t1 ds d w v db))"
  shows "length (land_plots (snd (process_imported_data X t2 ds d w v db'))) = length (land_plots db')"
proof (cases "temp_table db")
  case None
  with assms(1) show ?thesis by (simp add: process_imported_data_def)
next
  case (Some st)
  show ?thesis
  proof (cases "staged_count st = 0")
    case True
    with Some assms(1) show ?thesis by (simp add: process_imported_data_def)
  next
    case False
    show ?thesis
    proof (cases "insert_sql X t1 ds d w v st (land_plots db)")
      case (Inl e)
      with Some False assms(2) have same: "land_plots db' = land_plots db"
        by (simp add: process_imported_data_def)
      from insert_sql_again_Inl [OF Inl, of t2] same
      have "insert_sql X t2 ds d w v st (land_plots db') = Inl e" by simp
      with Some False assms(1) show ?thesis by (simp add: process_imported_data_def)
    next
      case (Inr tbl1)
      with Some False assms(2) have tbl1: "land_plots db' = tbl1"
        by (simp add: process_imported_data_def Let_def)
      from insert_sql_again_Inr [OF Inr, of t2] obtain tbl2 where
        "insert_sql X t2 ds d w v st tbl1 = Inr tbl2" and "length tbl2 = length tbl1"
        by blast
      with Some False assms(1) tbl1 show ?thesis
        by (simp add: process_imported_data_def Let_def)
    qed
  qed
qed

text \<open>After a successful run and its repetition, the matched rows carry the two run times.\<close>

lemma process_imported_data_stamps:
  assumes ok: "fst (process_imported_data X t1 ds d w v db) = Inr n"
    and st: "temp_table db = Some st" and ps: "proposed_rows X t1 ds d w v st = Inr ps"
    and st': "temp_table db' = Some st"
    and tbl': "land_plots db' = land_plots (snd (process_imported_data X t1 ds d w v db))"
    and i: "i < length (land_plots db')"
    and hit: "lp_plot_code (land_plots db' ! i) \<in> set (map lp_plot_code ps)"
  shows "lp_updated_at (land_plots db' ! i) = t1 \<and>
         lp_updated_at (land_plots (snd (process_imported_data X t2 ds d w v db')) ! i) = t2"
proof -
  from ok st have cnt: "staged_count st \<noteq> 0"
    by (auto simp: process_imported_data_def split: if_splits)
  from ok st cnt obtain tbl1 where ins: "insert_sql X t1 ds d w v st (land_plots db) = Inr tbl1"
    by (cases "insert_sql X t1 ds d w v st (land_plots db)")
      (auto simp: process_imported_data_def)
  with st cnt tbl' have tbl1: "land_plots db' = tbl1"
    by (simp add: process_imported_data_def Let_def)
  from insert_sql_again_Inr [OF ins, of t2] ps obtain ps' tbl2 where
    run1: "on_conflict_update t1 ps [] (land_plots db) = Inr tbl1"
    and ps': "proposed_rows X t2 ds d w v st = Inr ps'"
    and codes: "map lp_plot_code ps' = map lp_plot_code ps"
    and run2: "on_conflict_update t2 ps' [] tbl1 = Inr tbl2"
    and ins2: "insert_sql X t2 ds d w v st tbl1 = Inr tbl2"
    and len: "length tbl2 = length tbl1"
    by auto
  from st' cnt tbl1 ins2 have res: "land_plots (snd (process_imported_data X t2 ds d w v db')) = tbl2"
    by (simp add: process_imported_data_def Let_def)
  have "\<forall>r\<in>set tbl1. lp_plot_code r \<in> {} \<union> set (map lp_plot_code ps) \<longrightarrow> lp_updated_at r = t1"
  proof (rule on_conflict_update_stamps [OF run1])
    from proposed_rows_fixed [OF ps] show "\<forall>p\<in>set ps. lp_updated_at p = t1" by blast
    show "\<forall>r\<in>set (land_plots db). lp_plot_code r \<in> {} \<longrightarrow> lp_updated_at r = t1" by simp
  qed
  with i hit tbl1 have first: "lp_updated_at (land_plots db' ! i) = t1"
    by simp
  have all2: "\<forall>r\<in>set tbl2. lp_plot_code r \<in> {} \<union> set (map lp_plot_code ps') \<longrightarrow> lp_updated_at r = t2"
  proof (rule on_conflict_update_stamps [OF run2])
    from proposed_rows_fixed [OF ps'] show "\<forall>p\<in>set ps'. lp_updated_at p = t2" by blast
    show "\<forall>r\<in>set tbl1. lp_plot_code r \<in> {} \<longrightarrow> lp_updated_at r = t2" by simp
  qed
  from on_conflict_update_frame [OF run2] len
  have "map frame_fields tbl2 = map frame_fields tbl1" by simp
  then have "map frame_fields tbl2 ! i = map frame_fields tbl1 ! i" by simp
  with i tbl1 len have "frame_fields (tbl2 ! i) = frame_fields (tbl1 ! i)" by simp
  then have "lp_plot_code (tbl2 ! i) = lp_plot_code (tbl1 ! i)" by (simp add: frame_fields_def)
  with hit tbl1 codes have "lp_plot_code (tbl2 ! i) \<in> set (map lp_plot_code ps')" by simp
  moreover from i tbl1 len have "tbl2 ! i \<in> set tbl2" by simp
  ultimately have "lp_updated_at (tbl2 ! i) = t2" using all2 by blast
  with first res show ?thesis by simp
qed

text \<open>What the readers stage does not depend on the store they find.\<close>

lemma import_shapefile_data_fst:
  "fst (import_shapefile_data env db) = fst (import_shapefile_data env db')"
  by (simp add: import_shapefile_data_def import_with_ogr2ogr_def import_with_python_fallback_def
      Let_def split_def split: ogr2ogr_run.splits option.splits sum.splits)

lemma import_shapefile_data_temp_table:
  "fst (import_shapefile_data env db) \<Longrightarrow>
     temp_table (snd (import_shapefile_data env db)) = temp_table (snd (import_shapefile_data env db'))"
  by (simp add: import_shapefile_data_def import_with_ogr2ogr_def import_with_python_fallback_def
      Let_def split_def split: ogr2ogr_run.splits option.splits sum.splits if_splits)

lemma process_shapefile_land_plots_eq:
  "land_plots (snd (process_shapefile X now env ds d w v db)) =
     (if vr_valid (validate_shapefile_components (env_files env)) \<and>
         \<not> (env_gdal_version env \<noteq> None \<and> env_ogrinfo env = OgrinfoMissing) \<and>
         fst (import_shapefile_data env db)
      then land_plots (snd (process_imported_data X now ds d w v (snd (import_shapefile_data env db))))
      else land_plots db)"
  by (auto simp: process_shapefile_def Let_def split_def import_shapefile_data_land_plots
      create_import_record_land_plots split: sum.splits prod.splits)

lemma process_shapefile_Inr:
  "fst (process_shapefile X now env ds d w v db) = Inr n \<Longrightarrow>
     vr_valid (validate_shapefile_components (env_files env)) \<and>
     \<not> (env_gdal_version env \<noteq> None \<and> env_ogrinfo env = OgrinfoMissing) \<and>
     fst (import_shapefile_data env db) \<and>
     fst (process_imported_data X now ds d w v (snd (import_shapefile_data env db))) = Inr n"
  by (auto simp: process_shapefile_def Let_def split_def split: sum.splits prod.splits if_splits)

text \<open>The same for the statement of \<^verbatim>\<open>seed_import.py\<close>.\<close>

lemma seed_select_retime:
  "map_sum id conflict_key (seed_select t1 ds d w v cols c) =
   map_sum id conflict_key (seed_select t2 ds d w v cols c)"
  by (cases c)
    (simp add: seed_select_def new_row_def conflict_key_def split: option.splits sum.splits)

lemma seed_select_code:
  "seed_select now ds d w v cols (code, r) = Inr p \<Longrightarrow> lp_plot_code p = code"
  by (auto simp: seed_select_def new_row_def split: option.splits sum.splits)

lemma plain_insert_skeleton:
  "map conflict_key ps = map conflict_key ps' \<Longrightarrow>
   map lp_plot_code tbl = map lp_plot_code tbl' \<Longrightarrow>
   map_sum id (map lp_plot_code) (plain_insert ps tbl) =
   map_sum id (map lp_plot_code) (plain_insert ps' tbl')"
proof (induction ps arbitrary: ps' tbl tbl')
  case Nil
  then show ?case by simp
next
  case (Cons p ps)
  from Cons.prems(1) obtain p' ps'' where ps': "ps' = p' # ps''"
    and key: "conflict_key p = conflict_key p'" and keys: "map conflict_key ps = map conflict_key ps''"
    by (cases ps') auto
  from key have code: "lp_plot_code p = lp_plot_code p'" and area: "lp_area_hectares p = lp_area_hectares p'"
    by (simp_all add: conflict_key_def)
  from Cons.prems(2) have mem:
    "lp_plot_code p \<in> set (map lp_plot_code tbl) \<longleftrightarrow> lp_plot_code p' \<in> set (map lp_plot_code tbl')"
    using code by simp
  have app: "map lp_plot_code (tbl @ [p]) = map lp_plot_code (tbl' @ [p'])"
    using Cons.prems(2) code by simp
  show ?case
    unfolding ps'
    using Cons.IH [OF keys app] code area mem
    by (simp del: map_map map_append)
qed

lemma seed_proposals_retime:
  "map_sum id (map conflict_key) (sequence_rows (map (seed_select t1 ds d w v cols) fresh)) =
   map_sum id (map conflict_key) (sequence_rows (map (seed_select t2 ds d w v cols) fresh))"
proof -
  have "map_sum id conflict_key \<circ> seed_select t1 ds d w v cols =
        map_sum id conflict_key \<circ> seed_select t2 ds d w v cols"
    by (rule ext) (simp add: seed_select_retime)
  then show ?thesis
    by (simp add: sequence_rows_map_sum)
qed

lemma seed_insert_sql_again_Inl:
  assumes "seed_insert_sql t1 ds d w v cols src tbl = Inl e"
  shows "seed_insert_sql t2 ds d w v cols src tbl = Inl e"
proof -
  let ?fresh = "filter (\<lambda>(code, r). code \<notin> set (map lp_plot_code tbl)) src"
  let ?one = "sequence_rows (map (seed_select t1 ds d w v cols) ?fresh)"
  let ?two = "sequence_rows (map (seed_select t2 ds d w v cols) ?fresh)"
  have rel: "map_sum id (map conflict_key) ?one = map_sum id (map conflict_key) ?two"
    by (rule seed_proposals_retime)
  show ?thesis
  proof (cases ?one)
    case (Inl e')
    with assms have "e' = e" by (simp add: seed_insert_sql_def)
    moreover from rel Inl have "?two = Inl e'" by (cases ?two) simp_all
    ultimately show ?thesis by (simp add: seed_insert_sql_def)
  next
    case (Inr ps)
    with assms have fail: "plain_insert ps tbl = Inl e" by (simp add: seed_insert_sql_def)
    from rel Inr obtain ps' where two: "?two = Inr ps'" and keys: "map conflict_key ps = map conflict_key ps'"
      by (cases ?two) simp_all
    from plain_insert_skeleton [OF keys refl, of tbl] fail have "plain_insert ps' tbl = Inl e"
      by (cases "plain_insert ps' tbl") simp_all
    with two show ?thesis by (simp add: seed_insert_sql_def)
  qed
qed

text \<open>
  After a successful statement every plot code of the staged rows is in the table, so
  the same statement run again finds no row to insert.
\<close>

lemma sequence_seed_select_codes:
  "sequence_rows (map (seed_select now ds d w v cols) fresh) = Inr ps \<Longrightarrow>
     map lp_plot_code ps = map fst fresh"
proof (induction fresh arbitrary: ps)
  case Nil
  then show ?case by simp
next
  case (Cons c fresh)
  obtain code r where c: "c = (code, r)" by (cases c)
  from Cons.prems c obtain p qs where p: "seed_select now ds d w v cols (code, r) = Inr p"
    and qs: "sequence_rows (map (seed_select now ds d w v cols) fresh) = Inr qs" and ps: "ps = p # qs"
    by (auto split: sum.splits)
  from seed_select_code [OF p] Cons.IH [OF qs] c ps show ?case by simp
qed

lemma seed_insert_sql_again_Inr:
  assumes "seed_insert_sql t1 ds d w v cols src tbl = Inr tbl1"
  shows "seed_insert_sql t2 ds d w v cols src tbl1 = Inr tbl1"
proof -
  let ?fresh = "filter (\<lambda>(code, r). code \<notin> set (map lp_plot_code tbl)) src"
  from assms obtain ps where seq: "sequence_rows (map (seed_select t1 ds d w v cols) ?fresh) = Inr ps"
    and ins: "plain_insert ps tbl = Inr tbl1"
    by (auto simp: seed_insert_sql_def split: sum.splits)
  from plain_insert_appends [OF ins] have tbl1: "tbl1 = tbl @ ps" .
  from sequence_seed_select_codes [OF seq] have codes: "map lp_plot_code ps = map fst ?fresh" .
  have "code \<in> set (map lp_plot_code tbl1)" if "(code, r) \<in> set src" for code r
  proof (cases "code \<in> set (map lp_plot_code tbl)")
    case True
    with tbl1 show ?thesis by simp
  next
    case False
    with that have "(code, r) \<in> set ?fresh" by simp
    then have "code \<in> set (map fst ?fresh)" by force
    with codes tbl1 show ?thesis by simp
  qed
  then have "filter (\<lambda>(code, r). code \<notin> set (map lp_plot_code tbl1)) src = []"
    by (auto simp: filter_empty_conv)
  then show ?thesis by (simp add: seed_insert_sql_def)
qed

lemma normalize_again_Inl:
  "normalize_into_land_plots t1 tmp d w v ds tbl = Inl e \<Longrightarrow>
     normalize_into_land_plots t2 tmp d w v ds tbl = Inl e"
  by (auto simp: normalize_into_land_plots_def Let_def dest: seed_insert_sql_again_Inl [where ?t2.0 = t2]
      split: option.splits staging.splits list.splits if_splits sum.splits)

lemma normalize_again_Inr:
  "normalize_into_land_plots t1 tmp d w v ds tbl = Inr tbl1 \<Longrightarrow>
     normalize_into_land_plots t2 tmp d w v ds tbl1 = Inr tbl1"
  by (auto simp: normalize_into_land_plots_def Let_def dest: seed_insert_sql_again_Inr [where ?t2.0 = t2]
      split: option.splits staging.splits list.splits if_splits sum.splits)

lemma load_staging_fst: "fst (load_staging env db) = fst (load_staging env db')"
  by (simp add: load_staging_def seed_import_with_ogr2ogr_def fallback_python_import_def Let_def
      split_def split: check_call.splits option.splits sum.splits)

lemma load_staging_temp_table:
  "temp_table (snd (load_staging env db)) = temp_table (snd (load_staging env db'))"
  by (simp add: load_staging_def seed_import_with_ogr2ogr_def fallback_python_import_def Let_def
      split_def split: check_call.splits option.splits sum.splits)

lemma seed_again:
  "length (land_plots (snd (seed X t2 env ds d w v (snd (seed X t1 env ds d w v db))))) =
   length (land_plots (snd (seed X t1 env ds d w v db)))"
proof -
  define db1 where "db1 = snd (seed X t1 env ds d w v db)"
  define tmp where "tmp = temp_table (snd (load_staging env db))"
  define ready where "ready \<longleftrightarrow> file_exists (se_files env ''shp'') \<and> fst (load_staging env db) = Inr ()"
  have one: "land_plots db1 =
      (if ready then (case normalize_into_land_plots t1 tmp d w v ds (land_plots db) of
                        Inl e \<Rightarrow> land_plots db | Inr tbl \<Rightarrow> tbl)
       else land_plots db)"
    unfolding db1_def tmp_def ready_def by (rule seed_land_plots)
  have "land_plots (snd (seed X t2 env ds d w v db1)) =
      (if file_exists (se_files env ''shp'') \<and> fst (load_staging env db1) = Inr ()
       then (case normalize_into_land_plots t2 (temp_table (snd (load_staging env db1))) d w v ds
                    (land_plots db1) of
               Inl e \<Rightarrow> land_plots db1 | Inr tbl \<Rightarrow> tbl)
       else land_plots db1)"
    by (rule seed_land_plots)
  moreover have "temp_table (snd (load_staging env db1)) = tmp"
    unfolding tmp_def by (rule load_staging_temp_table)
  moreover have "fst (load_staging env db1) = fst (load_staging env db)"
    by (rule load_staging_fst)
  ultimately have two: "land_plots (snd (seed X t2 env ds d w v db1)) =
      (if ready then (case normalize_into_land_plots t2 tmp d w v ds (land_plots db1) of
                        Inl e \<Rightarrow> land_plots db1 | Inr tbl \<Rightarrow> tbl)
       else land_plots db1)"
    unfolding ready_def by simp
  have "length (land_plots (snd (seed X t2 env ds d w v db1))) = length (land_plots db1)"
  proof (cases ready)
    case False
    with two show ?thesis by simp
  next
    case True
    show ?thesis
    proof (cases "normalize_into_land_plots t1 tmp d w v ds (land_plots db)")
      case (Inl e)
      with True one have same: "land_plots db1 = land_plots db" by simp
      from normalize_again_Inl [OF Inl, of t2] same
      have "normalize_into_land_plots t2 tmp d w v ds (land_plots db1) = Inl e" by simp
      with True two show ?thesis by simp
    next
      case (Inr tbl1)
      with True one have same: "land_plots db1 = tbl1" by simp
      from normalize_again_Inr [OF Inr, of t2] same
      have "normalize_into_land_plots t2 tmp d w v ds (land_plots db1) = Inr tbl1" by simp
      with True two same show ?thesis by simp
    qed
  qed
  then show ?thesis unfolding db1_def .
qed

lemma process_shapefile_again:
  "length (land_plots (snd (process_shapefile X t2 env ds d w v
       (snd (process_shapefile X t1 env ds d w v db))))) =
   length (land_plots (snd (process_shapefile X t1 env ds d w v db)))"
proof -
  define db1 where "db1 = snd (process_shapefile X t1 env ds d w v db)"
  define ready where "ready \<longleftrightarrow> vr_valid (validate_shapefile_components (env_files env)) \<and>
         \<not> (env_gdal_version env \<noteq> None \<and> env_ogrinfo env = OgrinfoMissing) \<and>
         fst (import_shapefile_data env db)"
  define s where "s = snd (import_shapefile_data env db)"
  define s1 where "s1 = snd (import_shapefile_data env db1)"
  have one: "land_plots db1 =
      (if ready then land_plots (snd (process_imported_data X t1 ds d w v s)) else land_plots db)"
    unfolding db1_def ready_def s_def by (rule process_shapefile_land_plots_eq)
  have "land_plots (snd (process_shapefile X t2 env ds d w v db1)) =
      (if vr_valid (validate_shapefile_components (env_files env)) \<and>
          \<not> (env_gdal_version env \<noteq> None \<and> env_ogrinfo env = OgrinfoMissing) \<and>
          fst (import_shapefile_data env db1)
       then land_plots (snd (process_imported_data X t2 ds d w v s1)) else land_plots db1)"
    unfolding s1_def by (rule process_shapefile_land_plots_eq)
  moreover have "fst (import_shapefile_data env db1) = fst (import_shapefile_data env db)"
    by (rule import_shapefile_data_fst)
  ultimately have two: "land_plots (snd (process_shapefile X t2 env ds d w v db1)) =
      (if ready then land_plots (snd (process_imported_data X t2 ds d w v s1)) else land_plots db1)"
    unfolding ready_def by simp
  have "length (land_plots (snd (process_shapefile X t2 env ds d w v db1))) = length (land_plots db1)"
  proof (cases ready)
    case False
    with two show ?thesis by simp
  next
    case True
    then have "fst (import_shapefile_data env db1)"
      unfolding ready_def using import_shapefile_data_fst [of env db1 db] by simp
    from import_shapefile_data_temp_table [OF this, of db]
    have tmp: "temp_table s1 = temp_table s"
      unfolding s1_def s_def .
    have "land_plots s1 = land_plots db1"
      unfolding s1_def by (rule import_shapefile_data_land_plots)
    with True one have tbl: "land_plots s1 = land_plots (snd (process_imported_data X t1 ds d w v s))"
      by simp
    from process_imported_data_again [OF tmp tbl, of t2] \<open>land_plots s1 = land_plots db1\<close>
    have "length (land_plots (snd (process_imported_data X t2 ds d w v s1))) = length (land_plots db1)"
      by simp
    with True two show ?thesis by simp
  qed
  then show ?thesis unfolding db1_def .
qed

text \<open>
  Claim C3.  Running the same import a second time, at time \<open>t2\<close> after a first run at
  time \<open>t1\<close>, leaves the number of rows of \<^verbatim>\<open>land_plots\<close> as the first run left it: for
  \<^verbatim>\<open>process_shapefile\<close> (conflicts update the attributes) and for \<^verbatim>\<open>seed\<close> (conflicts are
  skipped), whatever the outcome of the runs.  After a successful first run of
  \<^verbatim>\<open>process_shapefile\<close>, every row whose plot code is one of the staged plot codes has
  \<^verbatim>\<open>updated_at\<close> equal to \<open>t1\<close> before and to \<open>t2\<close> after the second run, so it advances
  with the clock.
\<close>

theorem reimport_keeps_row_count:
  "(let db1 = snd (process_shapefile X t1 env ds d w v db);
        db2 = snd (process_shapefile X t2 env ds d w v db1);
        sdb1 = snd (seed X t1 senv ds d w v db);
        sdb2 = snd (seed X t2 senv ds d w v sdb1)
    in length (land_plots db2) = length (land_plots db1) \<and>
       length (land_plots sdb2) = length (land_plots sdb1) \<and>
       (\<forall>n st ps i.
          fst (process_shapefile X t1 env ds d w v db) = Inr n \<and>
          temp_table (snd (import_shapefile_data env db)) = Some st \<and>
          proposed_rows X t1 ds d w v st = Inr ps \<and>
          i < length (land_plots db1) \<and>
          lp_plot_code (land_plots db1 ! i) \<in> set (map lp_plot_code ps) \<longrightarrow>
          lp_updated_at (land_plots db1 ! i) = t1 \<and> lp_updated_at (land_plots db2 ! i) = t2 \<and>
          (t1 < t2 \<longrightarrow> lp_updated_at (land_plots db1 ! i) < lp_updated_at (land_plots db2 ! i))))"
proof -
  define db1 where "db1 = snd (process_shapefile X t1 env ds d w v db)"
  define db2 where "db2 = snd (process_shapefile X t2 env ds d w v db1)"
  define s where "s = snd (import_shapefile_data env db)"
  define s1 where "s1 = snd (import_shapefile_data env db1)"
  have count: "length (land_plots db2) = length (land_plots db1)"
    unfolding db2_def db1_def by (rule process_shapefile_again)
  have stamps: "lp_updated_at (land_plots db1 ! i) = t1 \<and> lp_updated_at (land_plots db2 ! i) = t2"
    if ok: "fst (process_shapefile X t1 env ds d w v db) = Inr n"
      and st: "temp_table s = Some st" and ps: "proposed_rows X t1 ds d w v st = Inr ps"
      and i: "i < length (land_plots db1)"
      and hit: "lp_plot_code (land_plots db1 ! i) \<in> set (map lp_plot_code ps)"
    for n st ps i
  proof -
    from process_shapefile_Inr [OF ok]
    have valid: "vr_valid (validate_shapefile_components (env_files env))"
      and tool: "\<not> (env_gdal_version env \<noteq> None \<and> env_ogrinfo env = OgrinfoMissing)"
      and imp: "fst (import_shapefile_data env db)"
      and pid: "fst (process_imported_data X t1 ds d w v s) = Inr n"
      unfolding s_def by simp_all
    have imp1: "fst (import_shapefile_data env db1)"
      using imp import_shapefile_data_fst [of env db1 db] by simp
    from import_shapefile_data_temp_table [OF imp1, of db] st have st1: "temp_table s1 = Some st"
      unfolding s1_def s_def by simp
    have l1: "land_plots s1 = land_plots db1"
      unfolding s1_def by (rule import_shapefile_data_land_plots)
    from valid tool imp have one: "land_plots db1 = land_plots (snd (process_imported_data X t1 ds d w v s))"
      unfolding db1_def s_def by (simp add: process_shapefile_land_plots_eq)
    from valid tool imp1 have two: "land_plots db2 = land_plots (snd (process_imported_data X t2 ds d w v s1))"
      unfolding db2_def s1_def by (simp add: process_shapefile_land_plots_eq)
    from l1 one have tbl: "land_plots s1 = land_plots (snd (process_imported_data X t1 ds d w v s))"
      by simp
    from i l1 have i1: "i < length (land_plots s1)" by simp
    from hit l1 have hit1: "lp_plot_code (land_plots s1 ! i) \<in> set (map lp_plot_code ps)" by simp
    from process_imported_data_stamps [OF pid st ps st1 tbl i1 hit1, of t2] l1 two
    show ?thesis by simp
  qed
  have seeds: "length (land_plots (snd (seed X t2 senv ds d w v (snd (seed X t1 senv ds d w v db))))) =
      length (land_plots (snd (seed X t1 senv ds d w v db)))"
    by (rule seed_again)
  have both: "lp_updated_at (land_plots db1 ! i) = t1 \<and> lp_updated_at (land_plots db2 ! i) = t2 \<and>
      (t1 < t2 \<longrightarrow> lp_updated_at (land_plots db1 ! i) < lp_updated_at (land_plots db2 ! i))"
    if "fst (process_shapefile X t1 env ds d w v db) = Inr n \<and> temp_table s = Some st \<and>
        proposed_rows X t1 ds d w v st = Inr ps \<and> i < length (land_plots db1) \<and>
        lp_plot_code (land_plots db1 ! i) \<in> set (map lp_plot_code ps)"
    for n st ps i
  proof -
    from that stamps [of n st ps i]
    have "lp_updated_at (land_plots db1 ! i) = t1 \<and> lp_updated_at (land_plots db2 ! i) = t2"
      by simp
    then show ?thesis by simp
  qed
  show ?thesis
    unfolding Let_def db1_def [symmetric] db2_def [symmetric] s_def [symmetric]
  proof (intro conjI allI)
    show "length (land_plots db2) = length (land_plots db1)"
      by (rule count)
    show "length (land_plots (snd (seed X t2 senv ds d w v (snd (seed X t1 senv ds d w v db))))) =
      length (land_plots (snd (seed X t1 senv ds d w v db)))"
      by (rule seeds)
    fix n st ps i
    show "fst (process_shapefile X t1 env ds d w v db) = Inr n \<and> temp_table s = Some st \<and>
        proposed_rows X t1 ds d w v st = Inr ps \<and> i < length (land_plots db1) \<and>
        lp_plot_code (land_plots db1 ! i) \<in> set (map lp_plot_code ps) \<longrightarrow>
        lp_updated_at (land_plots db1 ! i) = t1 \<and> lp_updated_at (land_plots db2 ! i) = t2 \<and>
        (t1 < t2 \<longrightarrow> lp_updated_at (land_plots db1 ! i) < lp_updated_at (land_plots db2 ! i))"
      using both [of n st ps i] by blast
  qed
qed


theorem reimport_keeps_row_count_witness:
  "(let db1 = snd (process_shapefile sample_externals 7 sample_env ''survey1'' ''Dodoma'' ''Kati''
                     ''Mbuyuni'' stocked_db);
        db2 = snd (process_shapefile sample_externals 9 sample_env ''survey1'' ''Dodoma'' ''Kati''
                     ''Mbuyuni'' db1);
        sdb1 = snd (seed sample_externals 7 sample_seed_env ''survey1'' ''Dodoma'' ''Kati''
                      ''Mbuyuni'' stocked_db);
        sdb2 = snd (seed sample_externals 9 sample_seed_env ''survey1'' ''Dodoma'' ''Kati''
                      ''Mbuyuni'' sdb1)
    in fst (process_shapefile sample_externals 7 sample_env ''survey1'' ''Dodoma'' ''Kati''
              ''Mbuyuni'' stocked_db) = Inr 1 \<and>
       temp_table (snd (import_shapefile_data sample_env stocked_db)) = Some sample_table \<and>
       map lp_plot_code
         (projr (proposed_rows sample_externals 7 ''survey1'' ''Dodoma'' ''Kati'' ''Mbuyuni''
            sample_table)) = [''A1'', ''survey1_0002''] \<and>
       map lp_plot_code (land_plots db1) = [''A1'', ''survey1_0002''] \<and>
       length (land_plots db2) = 2 \<and>
       map lp_updated_at (land_plots db1) = [7, 7] \<and>
       map lp_updated_at (land_plots db2) = [9, 9] \<and>
       length (land_plots sdb1) = 2 \<and> length (land_plots sdb2) = 2)"
  using reimport_keeps_row_count
    [where X = sample_externals and ?t1.0 = 7 and ?t2.0 = 9 and env = sample_env
       and senv = sample_seed_env and ds = "''survey1''" and d = "''Dodoma''" and w = "''Kati''"
       and v = "''Mbuyuni''" and db = stocked_db]
  by (simp add: sample_eval run_eval upsert_eval seed_eval text_eval)

section \<open>Component validation and the choice of reader\<close>

lemma check_component_valid:
  "vr_valid (check_component fs c vr) \<longleftrightarrow>
     vr_valid vr \<and> (\<forall>n. fs c \<noteq> Unreadable n) \<and> \<not> (c \<in> set required \<and> fs c = Missing)"
  by (cases "fs c") (auto simp: check_component_def Let_def file_exists_def)

lemma check_component_missing:
  "vr_missing_required (check_component fs c vr) =
     vr_missing_required vr @ (if c \<in> set required \<and> fs c = Missing then [c] else [])"
  by (cases "fs c") (auto simp: check_component_def Let_def file_exists_def)

lemma fold_check_component_valid:
  "vr_valid (fold (check_component fs) cs vr) \<longleftrightarrow>
     vr_valid vr \<and> (\<forall>c\<in>set cs. (\<forall>n. fs c \<noteq> Unreadable n) \<and> \<not> (c \<in> set required \<and> fs c = Missing))"
  by (induction cs arbitrary: vr) (auto simp: check_component_valid)

lemma fold_check_component_missing:
  "vr_missing_required (fold (check_component fs) cs vr) =
     vr_missing_required vr @ filter (\<lambda>c. c \<in> set required \<and> fs c = Missing) cs"
  by (induction cs arbitrary: vr) (auto simp: check_component_missing)

lemma validate_valid:
  "vr_valid (validate_shapefile_components fs) \<longleftrightarrow>
     (\<forall>c\<in>set required. fs c \<noteq> Missing) \<and> (\<forall>c\<in>set components. \<forall>n. fs c \<noteq> Unreadable n)"
proof -
  have "set required \<subseteq> set components"
    by (simp add: required_def components_def)
  then show ?thesis
    by (auto simp: validate_shapefile_components_def Let_def fold_check_component_valid)
qed

lemma validate_missing:
  "vr_missing_required (validate_shapefile_components fs) = filter (\<lambda>c. fs c = Missing) required"
proof -
  have "filter (\<lambda>c. c \<in> set required \<and> fs c = Missing) components =
        filter (\<lambda>c. fs c = Missing) required"
    by (simp add: components_def required_def)
  then show ?thesis
    by (simp add: validate_shapefile_components_def Let_def fold_check_component_missing)
qed

lemma process_imported_data_errors:
  "fst (process_imported_data X now ds d w v db) \<noteq> Inl (ValidationFailed m) \<and>
   fst (process_imported_data X now ds d w v db) \<noteq> Inl BothImportsFailed"
  by (auto simp: process_imported_data_def Let_def split: option.splits sum.splits)

text \<open>
  Claim C7, as the code has it.  Validation fails exactly when a mandatory sidecar
  (\<^verbatim>\<open>shp\<close>, \<^verbatim>\<open>shx\<close>, \<^verbatim>\<open>dbf\<close>) is missing or when any sidecar that exists, mandatory or
  optional, cannot be read; a missing optional sidecar is tolerated.  The error that
  \<^verbatim>\<open>process_shapefile\<close> raises then, before it touches the store, lists the missing
  mandatory components in the order \<^verbatim>\<open>shp\<close>, \<^verbatim>\<open>shx\<close>, \<^verbatim>\<open>dbf\<close>; no other path raises it.
\<close>

theorem validation_fails_iff_missing_mandatory_or_unreadable:
  "(vr_valid (validate_shapefile_components (env_files env)) \<longleftrightarrow>
      (\<forall>c\<in>set required. env_files env c \<noteq> Missing) \<and>
      (\<forall>c\<in>set components. \<forall>n. env_files env c \<noteq> Unreadable n)) \<and>
   (\<not> vr_valid (validate_shapefile_components (env_files env)) \<longrightarrow>
      process_shapefile X now env ds d w v db =
        (Inl (ValidationFailed (filter (\<lambda>c. env_files env c = Missing) required)), db)) \<and>
   (vr_valid (validate_shapefile_components (env_files env)) \<longrightarrow>
      (\<forall>m. fst (process_shapefile X now env ds d w v db) \<noteq> Inl (ValidationFailed m)))"
proof (intro conjI impI allI)
  show "vr_valid (validate_shapefile_components (env_files env)) \<longleftrightarrow>
      (\<forall>c\<in>set required. env_files env c \<noteq> Missing) \<and>
      (\<forall>c\<in>set components. \<forall>n. env_files env c \<noteq> Unreadable n)"
    by (rule validate_valid)
next
  assume "\<not> vr_valid (validate_shapefile_components (env_files env))"
  then show "process_shapefile X now env ds d w v db =
        (Inl (ValidationFailed (filter (\<lambda>c. env_files env c = Missing) required)), db)"
    by (simp add: process_shapefile_def validate_missing)
next
  fix m
  assume "vr_valid (validate_shapefile_components (env_files env))"
  then show "fst (process_shapefile X now env ds d w v db) \<noteq> Inl (ValidationFailed m)"
    using process_imported_data_errors [of X now ds d w v "snd (import_shapefile_data env db)" m]
    by (auto simp: process_shapefile_def Let_def split_def split: sum.splits prod.splits)
qed

theorem validation_fails_iff_missing_mandatory_or_unreadable_witness:
  "map (env_files sample_env) required = [Readable ''shape'', Readable ''index'', Readable ''table''] \<and>
   env_files sample_env ''prj'' = Missing \<and> env_files sample_env ''cpg'' = Missing \<and>
   vr_valid (validate_shapefile_components (env_files sample_env)) \<and>
   fst (process_shapefile sample_externals 7 sample_env ''survey1'' ''Dodoma'' ''Kati'' ''Mbuyuni''
          empty_db) = Inr 2 \<and>
   \<not> vr_valid (validate_shapefile_components
          (env_files (sample_env\<lparr>env_files := (\<lambda>ext. if ext = ''shx'' then Missing else sample_files ext)\<rparr>))) \<and>
   process_shapefile sample_externals 7
       (sample_env\<lparr>env_files := (\<lambda>ext. if ext = ''shx'' then Missing else sample_files ext)\<rparr>)
       ''survey1'' ''Dodoma'' ''Kati'' ''Mbuyuni'' empty_db =
     (Inl (ValidationFailed [''shx'']), empty_db)"
  using validation_fails_iff_missing_mandatory_or_unreadable
      [of sample_env sample_externals 7 "''survey1''" "''Dodoma''" "''Kati''" "''Mbuyuni''" empty_db]
    validation_fails_iff_missing_mandatory_or_unreadable
      [of "sample_env\<lparr>env_files := (\<lambda>ext. if ext = ''shx'' then Missing else sample_files ext)\<rparr>"
          sample_externals 7 "''survey1''" "''Dodoma''" "''Kati''" "''Mbuyuni''" empty_db]
  by (simp add: sample_eval run_eval upsert_eval text_eval)

text \<open>
  The claim as the specification words it fails where an optional sidecar exists and
  cannot be read: with the three mandatory sidecars readable and an unreadable \<^verbatim>\<open>prj\<close>,
  validation fails and the run raises, with an empty list of missing components.
\<close>

theorem unreadable_optional_sidecar_fails_validation:
  "locked_prj_files ''shp'' = Readable ''shape'' \<and>
   locked_prj_files ''shx'' = Readable ''index'' \<and>
   locked_prj_files ''dbf'' = Readable ''table'' \<and>
   locked_prj_files ''prj'' = Unreadable 120 \<and>
   \<not> vr_valid (validate_shapefile_components locked_prj_files) \<and>
   process_shapefile sample_externals 7 (sample_env\<lparr>env_files := locked_prj_files\<rparr>)
       ''survey1'' ''Dodoma'' ''Kati'' ''Mbuyuni'' empty_db =
     (Inl (ValidationFailed []), empty_db)"
  by (simp add: sample_eval run_eval)

lemma import_with_ogr2ogr_success:
  "fst (import_with_ogr2ogr run db) \<longleftrightarrow> (\<exists>st. run = Exited 0 (Some st) \<and> 0 < staged_count st)"
  by (cases run) (auto simp: import_with_ogr2ogr_def Let_def split: option.splits)

text \<open>
  Claim C6.  The converter bridge reports success exactly when the tool ran to return
  code 0 and left a staging table with at least one row; when it cannot be started, times
  out, exits with another code or loads nothing, \<^verbatim>\<open>import_with_ogr2ogr\<close> returns
  \<^verbatim>\<open>False\<close>.  Whenever the bridge has not succeeded (also when the tool is absent and the
  bridge is not tried) the fallback reader runs, on the store the bridge left.
  \<^verbatim>\<open>process_shapefile\<close> raises its import error exactly when the run got as far as the
  readers and neither of them succeeded.
\<close>

theorem bridge_failure_falls_back_and_both_failures_raise:
  "(let bridge = (env_gdal_version env \<noteq> None \<and> fst (import_with_ogr2ogr (env_ogr2ogr env) db));
        db1 = (if env_gdal_version env \<noteq> None then snd (import_with_ogr2ogr (env_ogr2ogr env) db)
               else db);
        fallback = import_with_python_fallback (env_python_libs env) (env_features env) db1
    in (fst (import_with_ogr2ogr (env_ogr2ogr env) db) \<longleftrightarrow>
          (\<exists>st. env_ogr2ogr env = Exited 0 (Some st) \<and> 0 < staged_count st)) \<and>
       import_shapefile_data env db = (if bridge then (True, db1) else fallback) \<and>
       (fst (process_shapefile X now env ds d w v db) = Inl BothImportsFailed \<longleftrightarrow>
          vr_valid (validate_shapefile_components (env_files env)) \<and>
          \<not> (env_gdal_version env \<noteq> None \<and> env_ogrinfo env = OgrinfoMissing) \<and>
          \<not> bridge \<and> \<not> fst fallback))"
proof -
  have imp: "import_shapefile_data env db =
      (if env_gdal_version env \<noteq> None \<and> fst (import_with_ogr2ogr (env_ogr2ogr env) db)
       then (True, if env_gdal_version env \<noteq> None then snd (import_with_ogr2ogr (env_ogr2ogr env) db)
                   else db)
       else import_with_python_fallback (env_python_libs env) (env_features env)
              (if env_gdal_version env \<noteq> None then snd (import_with_ogr2ogr (env_ogr2ogr env) db)
               else db))"
    by (simp add: import_shapefile_data_def split_def)
  have raise: "fst (process_shapefile X now env ds d w v db) = Inl BothImportsFailed \<longleftrightarrow>
      vr_valid (validate_shapefile_components (env_files env)) \<and>
      \<not> (env_gdal_version env \<noteq> None \<and> env_ogrinfo env = OgrinfoMissing) \<and>
      \<not> fst (import_shapefile_data env db)"
    using process_imported_data_errors [of X now ds d w v "snd (import_shapefile_data env db)"]
    by (auto simp: process_shapefile_def Let_def split_def split: sum.splits prod.splits)
  show ?thesis
    unfolding Let_def raise
    by (simp add: import_with_ogr2ogr_success imp)
qed

theorem bridge_failure_falls_back_and_both_failures_raise_witness:
  "\<not> fst (import_with_ogr2ogr (env_ogr2ogr bare_env) empty_db) \<and>
   \<not> fst (import_with_ogr2ogr SpawnFailed empty_db) \<and>
   \<not> fst (import_with_ogr2ogr (Exited 1 (Some sample_table)) empty_db) \<and>
   \<not> fst (import_with_ogr2ogr (Exited 0 (Some (JsonTable []))) empty_db) \<and>
   fst (import_with_ogr2ogr (Exited 0 (Some sample_columns)) empty_db) \<and>
   import_shapefile_data sample_env empty_db =
     import_with_python_fallback True (Some sample_features) empty_db \<and>
   fst (process_shapefile sample_externals 7 sample_env ''survey1'' ''Dodoma'' ''Kati'' ''Mbuyuni''
          empty_db) = Inr 2 \<and>
   fst (process_shapefile sample_externals 7 bare_env ''survey1'' ''Dodoma'' ''Kati'' ''Mbuyuni''
          empty_db) = Inl BothImportsFailed"
  using bridge_failure_falls_back_and_both_failures_raise
      [of sample_env empty_db sample_externals 7 "''survey1''" "''Dodoma''" "''Kati''" "''Mbuyuni''"]
    bridge_failure_falls_back_and_both_failures_raise
      [of bare_env empty_db sample_externals 7 "''survey1''" "''Dodoma''" "''Kati''" "''Mbuyuni''"]
    bridge_failure_falls_back_and_both_failures_raise
      [of "bare_env\<lparr>env_ogr2ogr := Exited 0 (Some sample_columns)\<rparr>" empty_db sample_externals 7
          "''survey1''" "''Dodoma''" "''Kati''" "''Mbuyuni''"]
  by (simp add: sample_eval run_eval upsert_eval text_eval)

section \<open>Areas\<close>

lemma round_half_away_of_int: "round_half_away (of_int k) = k"
proof -
  have "\<lfloor>(of_int k :: rat) + 1 / 2\<rfloor> = k" by (simp add: floor_eq_iff)
  moreover have "\<lfloor>- (of_int k :: rat) + 1 / 2\<rfloor> = - k"
    by (simp add: floor_eq_iff)
  ultimately show ?thesis by (simp add: round_half_away_def)
qed

lemma round4_idem: "round4 (round4 x) = round4 x"
  by (simp add: round4_def round_half_away_of_int)

lemma numeric_12_4_Inr: "numeric_12_4 a = Inr area \<Longrightarrow> area = round4 a"
  by (simp add: numeric_12_4_def Let_def split: if_splits)

lemma coalesce_numeric_all_null:
  "list_all (\<lambda>v. v = None) vs \<Longrightarrow> coalesce_numeric X vs d = Inr d"
  by (induction vs) (simp_all add: nullif_def)

lemma json_area_no_field:
  "list_all (\<lambda>k. json_get attrs k = None) area_keys \<Longrightarrow> json_area X attrs g = Inr (geodesic_hectares g)"
  by (simp add: json_area_def coalesce_numeric_all_null list_all_iff)

lemma json_select_area:
  "json_select X now ds d w v (rn, g, r) = Inr p \<Longrightarrow>
     \<exists>a. json_area X (sr_attributes r) g = Inr a \<and> lp_area_hectares p = round4 a"
  by (auto simp: json_select_def new_row_def split: sum.splits dest: numeric_12_4_Inr)

lemma column_select_area:
  "column_select X now ds d w v cols (rn, g, r) = Inr p \<Longrightarrow>
     \<exists>a. column_area X cols (sr_attributes r) g = Inr a \<and> lp_area_hectares p = round4 a"
  by (auto simp: column_select_def new_row_def split: sum.splits dest: numeric_12_4_Inr)

text \<open>
  Claim C8.  Every row that \<^verbatim>\<open>process_imported_data\<close> adds to \<^verbatim>\<open>land_plots\<close> has a
  positive \<^verbatim>\<open>area_hectares\<close>; and for a considered staged row with no recognised source
  area field, the proposed \<^verbatim>\<open>area_hectares\<close> is the spheroidal area in square metres
  divided by 10000 and rounded to four decimals.
\<close>

theorem inserted_area_positive_and_geodesic_default:
  "(\<forall>p \<in> set (drop (length (land_plots db))
                 (land_plots (snd (process_imported_data X now ds d w v db)))).
      0 < lp_area_hectares p) \<and>
   (\<forall>ps i. proposed_rows X now ds d w v st = Inr ps \<and> i < length ps \<and>
      no_area_field st (snd (candidates (staged_rows st) ! i)) \<longrightarrow>
      lp_area_hectares (ps ! i) = round4 (g_geog_area (fst (candidates (staged_rows st) ! i)) / 10000))"
proof (intro conjI ballI allI impI)
  fix p
  let ?tbl' = "land_plots (snd (process_imported_data X now ds d w v db))"
  assume p: "p \<in> set (drop (length (land_plots db)) ?tbl')"
  from process_imported_data_cases [of X now ds d w v db]
  show "0 < lp_area_hectares p"
  proof
    assume "?tbl' = land_plots db"
    with p show ?thesis by simp
  next
    assume "\<exists>st ps. temp_table db = Some st \<and> proposed_rows X now ds d w v st = Inr ps \<and>
      on_conflict_update now ps [] (land_plots db) = Inr ?tbl'"
    then obtain ps' where ups: "on_conflict_update now ps' [] (land_plots db) = Inr ?tbl'"
      by blast
    from on_conflict_update_frame [OF ups] p have "frame_fields p \<in> frame_fields ` set ps'"
      by blast
    then obtain q where q: "q \<in> set ps'" and "frame_fields p = frame_fields q" by blast
    then have "lp_area_hectares p = lp_area_hectares q" by (simp add: frame_fields_def)
    with on_conflict_update_checked [OF ups] q show ?thesis by simp
  qed
next
  fix ps i
  assume h: "proposed_rows X now ds d w v st = Inr ps \<and> i < length ps \<and>
      no_area_field st (snd (candidates (staged_rows st) ! i))"
  then have prp: "proposed_rows X now ds d w v st = Inr ps" and i: "i < length ps"
    and none: "no_area_field st (snd (candidates (staged_rows st) ! i))"
    by simp_all
  obtain g r where gr: "candidates (staged_rows st) ! i = (g, r)"
    by (cases "candidates (staged_rows st) ! i")
  from proposed_rows_select [OF prp] i
  have sel: "(case st of
                JsonTable rows \<Rightarrow> json_select X now ds d w v
              | ColumnTable cols rows \<Rightarrow> column_select X now ds d w v (attr_columns cols))
               (Suc i, candidates (staged_rows st) ! i) = Inr (ps ! i)"
    by simp
  have "lp_area_hectares (ps ! i) = round4 (geodesic_hectares g)"
  proof (cases st)
    case (JsonTable rows)
    with none gr have "json_area X (sr_attributes r) g = Inr (geodesic_hectares g)"
      by (simp add: no_area_field_def json_area_no_field)
    moreover from sel gr JsonTable have "json_select X now ds d w v (Suc i, g, r) = Inr (ps ! i)"
      by simp
    ultimately show ?thesis
      by (auto dest: json_select_area)
  next
    case (ColumnTable cols rows)
    with none have "column_area X (attr_columns cols) (sr_attributes r) g = Inr (geodesic_hectares g)"
      by (simp add: no_area_field_def column_area_def)
    moreover from sel gr ColumnTable
    have "column_select X now ds d w v (attr_columns cols) (Suc i, g, r) = Inr (ps ! i)"
      by simp
    ultimately show ?thesis
      by (auto dest: column_select_area)
  qed
  with gr show "lp_area_hectares (ps ! i) =
      round4 (g_geog_area (fst (candidates (staged_rows st) ! i)) / 10000)"
    by (simp add: geodesic_hectares_def round4_idem)
qed

theorem inserted_area_positive_and_geodesic_default_witness:
  "map lp_area_hectares
     (drop (length (land_plots empty_db))
        (land_plots (snd (process_imported_data sample_externals 7 ''survey1'' ''Dodoma'' ''Kati''
           ''Mbuyuni'' (empty_db\<lparr>temp_table := Some sample_table\<rparr>))))) = [5 / 2, 12346 / 10000] \<and>
   no_area_field sample_table (snd (candidates (staged_rows sample_table) ! 1)) \<and>
   g_geog_area (fst (candidates (staged_rows sample_table) ! 1)) = 1234567 / 100 \<and>
   map lp_area_hectares
     (projr (proposed_rows sample_externals 7 ''survey1'' ''Dodoma'' ''Kati'' ''Mbuyuni'' sample_table)) =
     [5 / 2, round4 (1234567 / 100 / 10000)]"
  using inserted_area_positive_and_geodesic_default
    [of "empty_db\<lparr>temp_table := Some sample_table\<rparr>" sample_externals 7 "''survey1''" "''Dodoma''"
        "''Kati''" "''Mbuyuni''" sample_table]
  by (simp add: sample_eval upsert_eval text_eval no_area_field_def)

section \<open>The bounds check\<close>

lemma rebox_simps [simp]:
  "g_valid (rebox b g) = g_valid g" "g_area (rebox b g) = g_area g"
  "g_geog_area (rebox b g) = g_geog_area g" "g_wkt (rebox b g) = g_wkt g"
  by (cases b; simp add: rebox_def)+

lemma prepare_feature_rebox:
  "prepare_feature i (rebox_feature b f) = map_option (rebox_item b) (prepare_feature i f)"
  by (cases "f_geometry f")
    (simp_all add: prepare_feature_def rebox_feature_def rebox_item_def)

lemma enumerate_map: "enumerate n (map f xs) = map (\<lambda>(k, x). (k, f x)) (enumerate n xs)"
  by (induction xs arbitrary: n) simp_all

lemma staged_of_item_rebox: "staged_of_item n (rebox_item b item) = rebox_row b (staged_of_item n item)"
  by (simp add: staged_of_item_def rebox_item_def rebox_row_def)

lemma bi_type_rebox_item [simp]: "bi_type (rebox_item b item) = bi_type item"
  by (simp add: rebox_item_def)

lemma execute_batch_insert_rebox:
  "execute_batch_insert (map (rebox_row b) rows) (map (rebox_item b) batch) =
     map_sum id (map (rebox_row b)) (execute_batch_insert rows batch)"
  by (simp add: execute_batch_insert_def enumerate_map split_def staged_of_item_rebox comp_def)

lemma loop_body_rebox:
  "\<exists>ws'. loop_body i (rebox_feature b f) (rebox_state b ws s) = rebox_state b ws' (loop_body i f s)"
proof (cases "prepare_feature i f")
  case None
  then show ?thesis
    by (simp add: loop_body_def prepare_feature_rebox rebox_state_def)
next
  case (Some item)
  let ?s1 = "s\<lparr>ls_warnings := (if within_tanzania (bounds (bi_geom item)) then ls_warnings s
                                  else ls_warnings s @ [i]),
                 ls_batch := ls_batch s @ [item]\<rparr>"
  show ?thesis
  proof (cases "batch_size \<le> length (ls_batch ?s1)")
    case False
    with Some show ?thesis
      by (simp add: loop_body_def prepare_feature_rebox rebox_state_def Let_def)
  next
    case True
    have "execute_batch_insert (map (rebox_row b) (ls_rows s))
            (map (rebox_item b) (ls_batch s @ [item])) =
          map_sum id (map (rebox_row b)) (execute_batch_insert (ls_rows s) (ls_batch s @ [item]))"
      by (rule execute_batch_insert_rebox)
    with Some True show ?thesis
      by (cases "execute_batch_insert (ls_rows s) (ls_batch s @ [item])")
        (simp_all add: loop_body_def prepare_feature_rebox rebox_state_def Let_def)
  qed
qed

lemma fallback_loop_rebox:
  "\<exists>ws'. fallback_loop i (map (rebox_feature b) fs) (rebox_state b ws s) =
          rebox_state b ws' (fallback_loop i fs s)"
proof (induction fs arbitrary: i ws s)
  case Nil
  show ?case by auto
next
  case (Cons f fs)
  from loop_body_rebox [of i b f ws s] obtain ws1 where
    "loop_body i (rebox_feature b f) (rebox_state b ws s) = rebox_state b ws1 (loop_body i f s)"
    by blast
  with Cons.IH [of "Suc i" ws1 "loop_body i f s"] show ?case by simp
qed

lemma import_with_python_fallback_rebox:
  "import_with_python_fallback libs (map_option (map (rebox_feature b)) src) (rebox_db b db) =
     (fst (import_with_python_fallback libs src db),
      rebox_db b (snd (import_with_python_fallback libs src db)))"
proof (cases "libs")
  case False
  then show ?thesis by (simp add: import_with_python_fallback_def)
next
  case True
  show ?thesis
  proof (cases src)
    case None
    with True show ?thesis
      by (simp add: import_with_python_fallback_def rebox_db_def rebox_staging_def)
  next
    case (Some fs)
    have init: "initial_state = rebox_state b [] initial_state"
      by (simp add: initial_state_def rebox_state_def)
    from fallback_loop_rebox [of 0 b fs "[]" initial_state] init obtain ws' where
      loop: "fallback_loop 0 (map (rebox_feature b) fs) initial_state =
             rebox_state b ws' (fallback_loop 0 fs initial_state)"
      by auto
    let ?s = "fallback_loop 0 fs initial_state"
    have ins: "execute_batch_insert (map (rebox_row b) (ls_rows ?s)) (map (rebox_item b) (ls_batch ?s)) =
          map_sum id (map (rebox_row b)) (execute_batch_insert (ls_rows ?s) (ls_batch ?s))"
      by (rule execute_batch_insert_rebox)
    from True Some loop ins show ?thesis
      by (cases "execute_batch_insert (ls_rows ?s) (ls_batch ?s)")
        (simp_all add: import_with_python_fallback_def Let_def rebox_db_def rebox_staging_def
          rebox_state_def)
  qed
qed

lemma insort_key_map:
  assumes "\<And>y. f (h y) = f y"
  shows "insort_key f (h x) (map h xs) = map h (insort_key f x xs)"
  by (induction xs) (simp_all add: assms)

lemma sort_key_map:
  assumes "\<And>y. f (h y) = f y"
  shows "sort_key f (map h xs) = map h (sort_key f xs)"
  by (induction xs) (simp_all add: insort_key_map [of f h, OF assms])

lemma map_filter_map_commute:
  assumes "\<And>x. f (h x) = map_option k (f' x)"
  shows "List.map_filter f (map h xs) = map k (List.map_filter f' xs)"
  by (induction xs) (auto simp: assms split: option.splits)

lemma where_clause_rebox: "where_clause (map_option (rebox b) go) = map_option (rebox b) (where_clause go)"
  by (cases go) (simp_all add: where_clause_def)

lemma candidates_rebox:
  "candidates (map (rebox_row b) rows) = map (\<lambda>(g, r). (rebox b g, rebox_row b r)) (candidates rows)"
proof -
  have key: "sr_id (rebox_row b y) = sr_id y" for y
    by (simp add: rebox_row_def)
  have "sort_key sr_id (map (rebox_row b) rows) = map (rebox_row b) (sort_key sr_id rows)"
    by (rule sort_key_map) (rule key)
  moreover have "List.map_filter (\<lambda>r. map_option (\<lambda>g. (g, r)) (where_clause (sr_geometry r)))
        (map (rebox_row b) xs) =
      map (\<lambda>(g, r). (rebox b g, rebox_row b r))
        (List.map_filter (\<lambda>r. map_option (\<lambda>g. (g, r)) (where_clause (sr_geometry r))) xs)" for xs
    by (rule map_filter_map_commute)
      (simp add: rebox_row_def where_clause_rebox option.map_comp comp_def)
  ultimately show ?thesis by (simp add: candidates_def)
qed

lemma geodesic_hectares_rebox [simp]: "geodesic_hectares (rebox b g) = geodesic_hectares g"
  by (simp add: geodesic_hectares_def)

lemma json_area_rebox [simp]: "json_area X attrs (rebox b g) = json_area X attrs g"
  by (simp add: json_area_def)

lemma column_area_rebox [simp]: "column_area X cols vals (rebox b g) = column_area X cols vals g"
  by (simp add: column_area_def split: option.splits)

lemma sr_attributes_rebox_row [simp]: "sr_attributes (rebox_row b r) = sr_attributes r"
  by (simp add: rebox_row_def)

lemma sr_original_fid_rebox_row [simp]: "sr_original_fid (rebox_row b r) = sr_original_fid r"
  by (simp add: rebox_row_def)

lemma new_row_rebox:
  "new_row now ds d w v code area (rebox b g) attrs = rebox_plot b (new_row now ds d w v code area g attrs)"
  by (simp add: new_row_def rebox_plot_def)

lemma json_select_rebox:
  "json_select X now ds d w v (rn, rebox b g, rebox_row b r) =
     map_sum id (rebox_plot b) (json_select X now ds d w v (rn, g, r))"
proof (cases "json_area X (sr_attributes r) g")
  case (Inl e)
  then show ?thesis by (simp add: json_select_def)
next
  case (Inr a)
  then show ?thesis
    by (cases "numeric_12_4 a") (simp_all add: json_select_def new_row_rebox)
qed

lemma column_select_rebox:
  "column_select X now ds d w v cols (rn, rebox b g, rebox_row b r) =
     map_sum id (rebox_plot b) (column_select X now ds d w v cols (rn, g, r))"
proof (cases "column_area X cols (sr_attributes r) g")
  case (Inl e)
  then show ?thesis by (simp add: column_select_def)
next
  case (Inr a)
  then show ?thesis
    by (cases "numeric_12_4 a") (simp_all add: column_select_def new_row_rebox)
qed

lemma proposed_rows_rebox:
  "proposed_rows X now ds d w v (rebox_staging b st) =
     map_sum id (map (rebox_plot b)) (proposed_rows X now ds d w v st)"
proof (cases st)
  case (JsonTable rows)
  have "json_select X now ds d w v \<circ> (\<lambda>(k, g, r). (k, rebox b g, rebox_row b r)) =
        map_sum id (rebox_plot b) \<circ> json_select X now ds d w v"
    by (rule ext) (simp add: split_def json_select_rebox)
  with JsonTable show ?thesis
    by (simp add: proposed_rows_def rebox_staging_def candidates_rebox row_number_def enumerate_map
        sequence_rows_map_sum split_def comp_def)
next
  case (ColumnTable cols rows)
  have "column_select X now ds d w v (attr_columns cols) \<circ> (\<lambda>(k, g, r). (k, rebox b g, rebox_row b r)) =
        map_sum id (rebox_plot b) \<circ> column_select X now ds d w v (attr_columns cols)"
    by (rule ext) (simp add: split_def column_select_rebox)
  with ColumnTable show ?thesis
    by (simp add: proposed_rows_def rebox_staging_def candidates_rebox row_number_def enumerate_map
        sequence_rows_map_sum split_def comp_def has_attributes_col_def)
qed

lemma rebox_plot_simps [simp]:
  "lp_plot_code (rebox_plot b p) = lp_plot_code p"
  "lp_area_hectares (rebox_plot b p) = lp_area_hectares p"
  "lp_dataset_name (rebox_plot b p) = lp_dataset_name p"
  "lp_attributes (rebox_plot b p) = lp_attributes p"
  by (simp_all add: rebox_plot_def)

lemma do_update_rebox:
  "do_update now (rebox_plot b p) (rebox_plot b r) = rebox_plot b (do_update now p r)"
  by (simp add: do_update_def rebox_plot_def)

lemma on_conflict_update_rebox:
  "on_conflict_update now (map (rebox_plot b) ps) touched (map (rebox_plot b) tbl) =
     map_sum id (map (rebox_plot b)) (on_conflict_update now ps touched tbl)"
proof (induction ps arbitrary: touched tbl)
  case Nil
  show ?case by simp
next
  case (Cons p ps)
  have upd: "do_update now (rebox_plot b p) \<circ> rebox_plot b = rebox_plot b \<circ> do_update now p"
    by (rule ext) (simp add: do_update_rebox)
  show ?case
    using Cons.IH [of "lp_plot_code p # touched" "map (do_update now p) tbl"]
      Cons.IH [of "lp_plot_code p # touched" "tbl @ [p]"]
    by (simp add: upd)
qed

lemma dataset_count_rebox [simp]:
  "dataset_count ds (map (rebox_plot b) tbl) = dataset_count ds tbl"
  by (induction tbl) (simp_all add: dataset_count_def)

lemma staged_count_rebox [simp]: "staged_count (rebox_staging b st) = staged_count st"
  by (cases st) (simp_all add: staged_count_def staged_rows_def rebox_staging_def)

lemma process_imported_data_rebox:
  "process_imported_data X now ds d w v (rebox_db b db) =
     (fst (process_imported_data X now ds d w v db),
      rebox_db b (snd (process_imported_data X now ds d w v db)))"
proof (cases "temp_table db")
  case None
  then show ?thesis by (simp add: process_imported_data_def rebox_db_def)
next
  case (Some st)
  have ins: "insert_sql X now ds d w v (rebox_staging b st) (map (rebox_plot b) (land_plots db)) =
      map_sum id (map (rebox_plot b)) (insert_sql X now ds d w v st (land_plots db))"
    by (cases "proposed_rows X now ds d w v st")
      (simp_all add: insert_sql_def proposed_rows_rebox on_conflict_update_rebox)
  from Some ins show ?thesis
    by (cases "insert_sql X now ds d w v st (land_plots db)")
      (simp_all add: process_imported_data_def rebox_db_def Let_def)
qed

text \<open>The warnings of the loop are the indices of the features it flags.\<close>

lemma loop_body_warnings:
  "ls_warnings (loop_body i f s) = ls_warnings s @ (if out_of_bounds i f then [i] else [])"
  by (cases "prepare_feature i f")
    (auto simp: loop_body_def out_of_bounds_def Let_def split: sum.splits)

lemma fallback_loop_warnings:
  "set (ls_warnings (fallback_loop i fs s)) =
     set (ls_warnings s) \<union> {i + k |k. k < length fs \<and> out_of_bounds (i + k) (fs ! k)}"
proof (induction fs arbitrary: i s)
  case Nil
  show ?case by simp
next
  case (Cons f fs)
  have "{i + k |k. k < length (f # fs) \<and> out_of_bounds (i + k) ((f # fs) ! k)} =
        (if out_of_bounds i f then {i} else {}) \<union>
        {Suc i + k |k. k < length fs \<and> out_of_bounds (Suc i + k) (fs ! k)}"
    (is "?L = ?R")
  proof (rule set_eqI)
    fix n
    show "n \<in> ?L \<longleftrightarrow> n \<in> ?R"
    proof
      assume "n \<in> ?L"
      then obtain k where k: "n = i + k" "k < length (f # fs)" "out_of_bounds (i + k) ((f # fs) ! k)"
        by blast
      show "n \<in> ?R"
      proof (cases k)
        case 0
        with k show ?thesis by simp
      next
        case (Suc j)
        with k have "n = Suc i + j \<and> j < length fs \<and> out_of_bounds (Suc i + j) (fs ! j)"
          by simp
        then show ?thesis by blast
      qed
    next
      assume "n \<in> ?R"
      then consider "out_of_bounds i f" "n = i"
        | j where "n = Suc i + j" "j < length fs" "out_of_bounds (Suc i + j) (fs ! j)"
        by (auto split: if_splits)
      then show "n \<in> ?L"
      proof cases
        case 1
        then have "n = i + 0 \<and> 0 < length (f # fs) \<and> out_of_bounds (i + 0) ((f # fs) ! 0)"
          by simp
        then show ?thesis by blast
      next
        case 2
        then have "n = i + Suc j \<and> Suc j < length (f # fs) \<and>
            out_of_bounds (i + Suc j) ((f # fs) ! Suc j)"
          by simp
        then show ?thesis by blast
      qed
    qed
  qed
  with Cons.IH [of "Suc i" "loop_body i f s"] show ?case
    by (auto simp: loop_body_warnings)
qed

text \<open>
  Claim C9.  The envelope test of the fallback reader only adds the index of the feature
  to the warnings: giving every geometry any other bounding box \<open>b\<close> (one inside the
  envelope, for instance) leaves the outcome of the reader and the rows it stages as they
  are, up to that bounding box; and the same holds for \<^verbatim>\<open>process_imported_data\<close>, whose
  envelope test on the statistics chooses between two log lines.
\<close>

theorem bounds_check_only_warns:
  "import_with_python_fallback libs (map_option (map (rebox_feature b)) src) (rebox_db b db) =
     (fst (import_with_python_fallback libs src db),
      rebox_db b (snd (import_with_python_fallback libs src db))) \<and>
   process_imported_data X now ds d w v (rebox_db b db) =
     (fst (process_imported_data X now ds d w v db),
      rebox_db b (snd (process_imported_data X now ds d w v db))) \<and>
   set (ls_warnings (fallback_loop 0 fs initial_state)) =
     {i. i < length fs \<and> out_of_bounds i (fs ! i)}"
proof -
  from fallback_loop_warnings [of 0 fs initial_state]
  have "set (ls_warnings (fallback_loop 0 fs initial_state)) =
     {i. i < length fs \<and> out_of_bounds i (fs ! i)}"
    by (simp add: initial_state_def)
  then show ?thesis
    by (simp add: import_with_python_fallback_rebox process_imported_data_rebox)
qed

theorem bounds_check_only_warns_witness:
  "fst (import_with_python_fallback True (Some (map (rebox_feature far_box) sample_features)) empty_db) \<and>
   temp_table (snd (import_with_python_fallback True (Some (map (rebox_feature far_box) sample_features))
      empty_db)) = Some (rebox_staging far_box sample_table) \<and>
   temp_table (snd (import_with_python_fallback True (Some sample_features) empty_db)) =
     Some sample_table \<and>
   ls_warnings (fallback_loop 0 (map (rebox_feature far_box) sample_features) initial_state) = [0, 1, 2] \<and>
   ls_warnings (fallback_loop 0 sample_features initial_state) = [] \<and>
   map lp_plot_code
     (land_plots (snd (process_imported_data sample_externals 7 ''survey1'' ''Dodoma'' ''Kati'' ''Mbuyuni''
        (rebox_db far_box (empty_db\<lparr>temp_table := Some sample_table\<rparr>))))) = [''A1'', ''survey1_0002'']"
  using bounds_check_only_warns
    [of True far_box "Some sample_features" empty_db sample_externals 7 "''survey1''" "''Dodoma''"
        "''Kati''" "''Mbuyuni''" "map (rebox_feature far_box) sample_features"]
    bounds_check_only_warns
    [of True far_box "Some sample_features" "empty_db\<lparr>temp_table := Some sample_table\<rparr>"
        sample_externals 7 "''survey1''" "''Dodoma''" "''Kati''" "''Mbuyuni''" sample_features]
  by (simp add: sample_eval run_eval upsert_eval text_eval rebox_feature_def rebox_def
      rebox_staging_def rebox_row_def rebox_db_def rebox_plot_def)

section \<open>The ledger\<close>

lemma upsert_import_row:
  "(\<exists>r\<in>set (upsert_import now rec tbl). ir_dataset_name r = ir_dataset_name rec) \<and>
   (\<forall>r\<in>set (upsert_import now rec tbl).
      ir_dataset_name r = ir_dataset_name rec \<longrightarrow> ir_feature_count r = ir_feature_count rec)"
proof (cases "ir_dataset_name rec \<in> set (map ir_dataset_name tbl)")
  case True
  then obtain old where "old \<in> set tbl" "ir_dataset_name old = ir_dataset_name rec"
    by auto
  then have "rec\<lparr>ir_imported_at := now\<rparr> \<in> set (upsert_import now rec tbl)"
    using True by (force simp: upsert_import_def)
  moreover have "\<forall>r\<in>set (upsert_import now rec tbl).
      ir_dataset_name r = ir_dataset_name rec \<longrightarrow> ir_feature_count r = ir_feature_count rec"
    using True by (auto simp: upsert_import_def)
  moreover have "ir_dataset_name (rec\<lparr>ir_imported_at := now\<rparr>) = ir_dataset_name rec"
    by simp
  ultimately show ?thesis by blast
next
  case False
  then have "\<forall>r\<in>set tbl. ir_dataset_name r \<noteq> ir_dataset_name rec"
    by (metis image_eqI set_map)
  with False show ?thesis
    by (auto simp: upsert_import_def)
qed

lemma file_hashes_readable:
  "\<forall>c\<in>set cs. \<forall>n. fs c \<noteq> Unreadable n \<Longrightarrow> \<exists>hs. file_hashes X fs cs = Some hs"
proof (induction cs)
  case Nil
  show ?case by simp
next
  case (Cons c cs)
  then obtain hs where "file_hashes X fs cs = Some hs" by auto
  with Cons.prems show ?case by (cases "fs c") auto
qed

lemma create_import_record_row:
  assumes "vr_valid (validate_shapefile_components fs)"
  shows "(\<exists>r\<in>set (shapefile_imports (create_import_record X now fs ds vr md n db)).
            ir_dataset_name r = ds) \<and>
         (\<forall>r\<in>set (shapefile_imports (create_import_record X now fs ds vr md n db)).
            ir_dataset_name r = ds \<longrightarrow> ir_feature_count r = n)"
proof -
  from assms have "\<forall>c\<in>set components. \<forall>n. fs c \<noteq> Unreadable n"
    by (simp add: validate_valid)
  from file_hashes_readable [OF this, of X] obtain hs where
    "file_hashes X fs [''shp'', ''shx'', ''dbf'', ''prj'', ''cpg''] = Some hs"
    by (auto simp: components_def)
  then show ?thesis
    using upsert_import_row
      [of now "\<lparr>ir_dataset_name = ds, ir_prj = vr_projection vr, ir_cpg = vr_encoding vr,
                 ir_dbf_schema = fold (\<lambda>(k, v). AList.update k v) (md_fields md) [],
                 ir_file_hashes = hs, ir_feature_count = n, ir_bbox = md_spatial_extent md,
                 ir_imported_at = now\<rparr>" "shapefile_imports db"]
    by (simp add: create_import_record_def)
qed

lemma process_imported_data_count:
  "process_imported_data X now ds d w v db = (Inr n, db') \<Longrightarrow> n = dataset_count ds (land_plots db')"
  by (auto simp: process_imported_data_def Let_def split: option.splits sum.splits if_splits)

lemma process_shapefile_ledger:
  assumes "process_shapefile X now env ds d w v db = (Inr n, db')"
  shows "n = dataset_count ds (land_plots db') \<and>
         (\<exists>r\<in>set (shapefile_imports db'). ir_dataset_name r = ds) \<and>
         (\<forall>r\<in>set (shapefile_imports db'). ir_dataset_name r = ds \<longrightarrow> ir_feature_count r = n)"
proof -
  let ?vr = "validate_shapefile_components (env_files env)"
  let ?s = "snd (import_shapefile_data env db)"
  from assms have ok: "fst (process_shapefile X now env ds d w v db) = Inr n" by simp
  from process_shapefile_Inr [OF ok] have valid: "vr_valid ?vr"
    and tool: "\<not> (env_gdal_version env \<noteq> None \<and> env_ogrinfo env = OgrinfoMissing)"
    and imp: "fst (import_shapefile_data env db)"
    and pid: "fst (process_imported_data X now ds d w v ?s) = Inr n"
    by simp_all
  obtain db2 where run: "process_imported_data X now ds d w v ?s = (Inr n, db2)"
    using pid by (cases "process_imported_data X now ds d w v ?s") simp
  define md where "md = (if env_gdal_version env \<noteq> None
                   then (case env_ogrinfo env of OgrinfoOk m \<Rightarrow> m | _ \<Rightarrow> empty_metadata)
                   else empty_metadata)"
  have "process_shapefile X now env ds d w v db =
      (Inr n, create_import_record X now (env_files env) ds ?vr md n db2)"
    using valid tool imp run
    by (simp add: process_shapefile_def Let_def split_def md_def)
  with assms have db': "db' = create_import_record X now (env_files env) ds ?vr md n db2"
    by simp
  have "land_plots db' = land_plots db2"
    unfolding db' by (rule create_import_record_land_plots)
  with process_imported_data_count [OF run] have cnt: "n = dataset_count ds (land_plots db')"
    by simp
  have rows: "(\<exists>r\<in>set (shapefile_imports db'). ir_dataset_name r = ds) \<and>
      (\<forall>r\<in>set (shapefile_imports db'). ir_dataset_name r = ds \<longrightarrow> ir_feature_count r = n)"
    unfolding db' by (rule create_import_record_row [OF valid])
  from cnt rows show ?thesis by blast
qed

lemma fallback_rows_errors: "fallback_rows n fs \<noteq> Inl StatsFormatting"
  by (induction fs arbitrary: n) (auto split: option.splits sum.splits)

lemma load_staging_errors: "fst (load_staging env db) \<noteq> Inl StatsFormatting"
  using fallback_rows_errors [of 1]
  by (auto simp: load_staging_def seed_import_with_ogr2ogr_def fallback_python_import_def Let_def
      split: check_call.splits option.splits sum.splits)

lemma normalize_errors: "normalize_into_land_plots now tmp d w v ds tbl \<noteq> Inl StatsFormatting"
  by (auto simp: normalize_into_land_plots_def Let_def
      split: option.splits staging.splits list.splits sum.splits)

lemma seed_ledger:
  assumes "seed X now env ds d w v db = (out, db')" and "out = Inr () \<or> out = Inl StatsFormatting"
  shows "(\<exists>r\<in>set (shapefile_imports db'). ir_dataset_name r = ds) \<and>
         (\<forall>r\<in>set (shapefile_imports db').
            ir_dataset_name r = ds \<longrightarrow>
            ir_feature_count r = length (location_rows d w v (land_plots db')))"
proof -
  let ?l = "load_staging env db"
  from assms have shp: "file_exists (se_files env ''shp'')"
    by (auto simp: seed_def split: if_splits)
  from assms shp load_staging_errors [of env db] have loaded: "fst ?l = Inr ()"
    by (cases "fst ?l") (auto simp: seed_def Let_def split_def)
  from assms shp loaded
    normalize_errors [of now "temp_table (snd ?l)" d w v ds "land_plots (snd ?l)"]
  obtain tbl where
    norm: "normalize_into_land_plots now (temp_table (snd ?l)) d w v ds (land_plots (snd ?l)) = Inr tbl"
    by (cases "normalize_into_land_plots now (temp_table (snd ?l)) d w v ds (land_plots (snd ?l))")
      (auto simp: seed_def Let_def split_def)
  from assms shp loaded norm obtain hs where
    hs: "file_hashes X (se_files env) [''prj'', ''dbf'', ''shx'', ''cpg'', ''shp''] = Some hs"
    by (cases "file_hashes X (se_files env) [''prj'', ''dbf'', ''shx'', ''cpg'', ''shp'']")
      (auto simp: seed_def Let_def split_def)
  let ?rec = "\<lparr>ir_dataset_name = ds, ir_prj = file_text (se_files env ''prj''),
                ir_cpg = map_option strip (file_text (se_files env ''cpg'')),
                ir_dbf_schema = se_dbf_schema env, ir_file_hashes = hs,
                ir_feature_count = length (location_rows d w v tbl),
                ir_bbox = extent (map lp_geometry (location_rows d w v tbl)),
                ir_imported_at = now\<rparr>"
  from assms(1) shp loaded norm hs
  have "land_plots db' = tbl \<and>
        shapefile_imports db' = upsert_import now ?rec (shapefile_imports (snd ?l))"
    by (auto simp: seed_def Let_def split_def split: if_splits)
  with upsert_import_row [of now ?rec "shapefile_imports (snd ?l)"] show ?thesis
    by simp
qed

text \<open>
  Claim C1, as the code has it.  The ledger row of a dataset does not record the number
  of staged features.  After a successful \<^verbatim>\<open>process_shapefile\<close> its \<^verbatim>\<open>feature_count\<close> is
  the number the call returns: the number of rows of \<^verbatim>\<open>land_plots\<close> that carry the
  dataset's name once the upsert is committed.  After \<^verbatim>\<open>seed\<close> has written the ledger
  (it then returns, or raises on its last log line) the \<^verbatim>\<open>feature_count\<close> is the number
  of rows of \<^verbatim>\<open>land_plots\<close> with the district, ward and village of the run.
\<close>

theorem ledger_counts_rows_of_the_store:
  "(process_shapefile X now env ds d w v db = (Inr n, db') \<longrightarrow>
      n = dataset_count ds (land_plots db') \<and>
      (\<exists>r\<in>set (shapefile_imports db'). ir_dataset_name r = ds) \<and>
      (\<forall>r\<in>set (shapefile_imports db').
         ir_dataset_name r = ds \<longrightarrow> ir_feature_count r = dataset_count ds (land_plots db'))) \<and>
   (seed X now senv ds d w v db = (out, sdb') \<and> (out = Inr () \<or> out = Inl StatsFormatting) \<longrightarrow>
      (\<exists>r\<in>set (shapefile_imports sdb'). ir_dataset_name r = ds) \<and>
      (\<forall>r\<in>set (shapefile_imports sdb').
         ir_dataset_name r = ds \<longrightarrow>
         ir_feature_count r = length (location_rows d w v (land_plots sdb'))))"
proof (intro conjI impI)
  assume run: "process_shapefile X now env ds d w v db = (Inr n, db')"
  from process_shapefile_ledger [OF run]
  show "n = dataset_count ds (land_plots db')"
    and "\<exists>r\<in>set (shapefile_imports db'). ir_dataset_name r = ds"
    and "\<forall>r\<in>set (shapefile_imports db').
         ir_dataset_name r = ds \<longrightarrow> ir_feature_count r = dataset_count ds (land_plots db')"
    by blast+
next
  assume "seed X now senv ds d w v db = (out, sdb') \<and> (out = Inr () \<or> out = Inl StatsFormatting)"
  then have run: "seed X now senv ds d w v db = (out, sdb')"
    and out: "out = Inr () \<or> out = Inl StatsFormatting"
    by simp_all
  from seed_ledger [OF run out]
  show "\<exists>r\<in>set (shapefile_imports sdb'). ir_dataset_name r = ds"
    and "\<forall>r\<in>set (shapefile_imports sdb').
         ir_dataset_name r = ds \<longrightarrow>
         ir_feature_count r = length (location_rows d w v (land_plots sdb'))"
    by simp_all
qed

theorem ledger_counts_rows_of_the_store_witness:
  "fst (process_shapefile sample_externals 7 sample_env ''survey1'' ''Dodoma'' ''Kati'' ''Mbuyuni''
          stocked_db) = Inr 1 \<and>
   map lp_dataset_name
     (land_plots (snd (process_shapefile sample_externals 7 sample_env ''survey1'' ''Dodoma'' ''Kati''
        ''Mbuyuni'' stocked_db))) = [Some ''earlier'', Some ''survey1''] \<and>
   map (\<lambda>r. (ir_dataset_name r, ir_feature_count r))
     (shapefile_imports (snd (process_shapefile sample_externals 7 sample_env ''survey1'' ''Dodoma''
        ''Kati'' ''Mbuyuni'' stocked_db))) = [(''survey1'', 1)] \<and>
   fst (seed sample_externals 7 sample_seed_env ''survey1'' ''Dodoma'' ''Kati'' ''Mbuyuni''
          stocked_db) = Inr () \<and>
   map (\<lambda>r. (ir_dataset_name r, ir_feature_count r))
     (shapefile_imports (snd (seed sample_externals 7 sample_seed_env ''survey1'' ''Dodoma'' ''Kati''
        ''Mbuyuni'' stocked_db))) = [(''survey1'', 1)]"
  using ledger_counts_rows_of_the_store
    [of sample_externals 7 sample_env "''survey1''" "''Dodoma''" "''Kati''" "''Mbuyuni''" stocked_db
        1 "snd (process_shapefile sample_externals 7 sample_env ''survey1'' ''Dodoma'' ''Kati''
                  ''Mbuyuni'' stocked_db)"
        sample_seed_env "Inr ()"
        "snd (seed sample_externals 7 sample_seed_env ''survey1'' ''Dodoma'' ''Kati'' ''Mbuyuni''
                stocked_db)"]
  by (simp add: sample_eval run_eval upsert_eval seed_eval text_eval)

text \<open>
  The claim as the specification words it fails on a dataset of three staged features of
  which one is rejected by the area test: the ledger records 2, which is not the
  pre-filter count 3.
\<close>

theorem ledger_feature_count_is_not_staged_count:
  "temp_table (snd (import_shapefile_data sample_env empty_db)) = Some sample_table \<and>
   staged_count sample_table = 3 \<and>
   length (candidates (staged_rows sample_table)) = 2 \<and>
   fst (process_shapefile sample_externals 7 sample_env ''survey1'' ''Dodoma'' ''Kati'' ''Mbuyuni''
          empty_db) = Inr 2 \<and>
   map (\<lambda>r. (ir_dataset_name r, ir_feature_count r))
     (shapefile_imports (snd (process_shapefile sample_externals 7 sample_env ''survey1'' ''Dodoma''
        ''Kati'' ''Mbuyuni'' empty_db))) = [(''survey1'', 2)]"
  by (simp add: sample_eval run_eval upsert_eval text_eval)

end
